theory Spec2Isabelle
  imports Main "HOL-Library.Word" "HOL-Library.AList" "HOL-Library.Multiset"
begin

unbundle bit_operations_syntax

section \<open>Strings\<close>

text \<open>
  A JavaScript string is a sequence of UTF-16 code units. The model covers the strings
  whose code units are all below 256: such a string is the \<^typ>\<open>string\<close> of its code
  units, and \<open>length\<close> is JavaScript's \<open>.length\<close>.
\<close>

definition charCode :: "char \<Rightarrow> nat" where
  "charCode c = of_char c"

definition isUpper :: "char \<Rightarrow> bool" where
  "isUpper c = (65 \<le> charCode c \<and> charCode c \<le> 90)"

definition isLower :: "char \<Rightarrow> bool" where
  "isLower c = (97 \<le> charCode c \<and> charCode c \<le> 122)"

definition isDigit :: "char \<Rightarrow> bool" where
  "isDigit c = (48 \<le> charCode c \<and> charCode c \<le> 57)"

text \<open>
  \<open>String.prototype.toLowerCase\<close> on code units below 256: the letters A-Z and the
  Latin-1 capitals U+00C0..U+00DE (U+00D7, the multiplication sign, apart) move up by 32.
\<close>

definition lowerChar :: "char \<Rightarrow> char" where
  "lowerChar c =
     (if isUpper c \<or> (192 \<le> charCode c \<and> charCode c \<le> 222 \<and> charCode c \<noteq> 215)
      then char_of (charCode c + 32) else c)"

definition toLowerCase :: "string \<Rightarrow> string" where
  "toLowerCase s = map lowerChar s"

text \<open>\<open>s.startsWith(k)\<close> and \<open>s.includes(k)\<close>.\<close>

fun startsWith :: "string \<Rightarrow> string \<Rightarrow> bool" where
  "startsWith s [] = True"
| "startsWith [] (k # ks) = False"
| "startsWith (c # cs) (k # ks) = (c = k \<and> startsWith cs ks)"

fun includesStr :: "string \<Rightarrow> string \<Rightarrow> bool" where
  "includesStr [] k = (k = [])"
| "includesStr (c # cs) k = (startsWith (c # cs) k \<or> includesStr cs k)"

section \<open>utils: hashCode and generateId\<close>

text \<open>
  \<open>Number.prototype.toString(36)\<close> on a non-negative integer.
\<close>

definition digit36 :: "nat \<Rightarrow> char" where
  "digit36 d = ''0123456789abcdefghijklmnopqrstuvwxyz'' ! d"

fun radix36 :: "nat \<Rightarrow> string" where
  "radix36 n = (if n < 36 then [digit36 n] else radix36 (n div 36) @ [digit36 (n mod 36)])"

declare radix36.simps [simp del]

text \<open>
  \<^verbatim>\<open>
  export function hashCode(str: string): string {
    let hash = 0;
    for (let i = 0; i < str.length; i++) {
      const char = str.charCodeAt(i);
      hash = (hash << 5) - hash + char;
      hash = hash & hash; // Convert to 32bit integer
    }
    return Math.abs(hash).toString(36);
  }
  \<close>
  After every round \<open>hash\<close> is a 32-bit two's complement integer (\<open>hash & hash\<close> is
  \<open>ToInt32\<close>), and \<open>(hash << 5) - hash + char\<close> stays far below \<open>2^53\<close>, so it is exact
  before it is wrapped: one round is a computation on \<^typ>\<open>32 word\<close>. \<open>Math.abs\<close> reads the
  word as a signed integer.
\<close>

definition hashStep :: "32 word \<Rightarrow> char \<Rightarrow> 32 word" where
  "hashStep hash c = (push_bit 5 hash - hash) + of_nat (charCode c)"

definition hashLoop :: "string \<Rightarrow> 32 word" where
  "hashLoop str = foldl hashStep 0 str"

definition hashCode :: "string \<Rightarrow> string" where
  "hashCode str = radix36 (nat \<bar>sint (hashLoop str)\<bar>)"

text \<open>
  \<^verbatim>\<open>
  export function generateId(url: string, source: string): string {
    const urlHash = hashCode(url);
    const sourceHash = hashCode(source);
    return `${sourceHash}-${urlHash}`;
  }
  \<close>
\<close>

definition generateId :: "string \<Rightarrow> string \<Rightarrow> string" where
  "generateId url source = hashCode source @ ''-'' @ hashCode url"

section \<open>types: the normalized record\<close>

datatype NewsCategory = politics | tech | finance | gov | ai | intel | general

text \<open>A GDELT article as the API returns it; \<open>socialimage\<close> and \<open>language\<close> are optional.\<close>

record GdeltArticle =
  g_title :: string
  g_url :: string
  seendate :: string
  g_domain :: string
  socialimage :: "string option"
  g_language :: "string option"

text \<open>
  \<open>NewsMetadata\<close>: every field is optional (\<open>None\<close> is \<open>undefined\<close>). \<open>raw\<close> holds the
  article of the GDELT connector. Keys outside the interface, which the object spread of
  \<open>normalizeItem\<close> would carry along, are not part of the model.
\<close>

record NewsMetadata =
  category :: "NewsCategory option"
  is_alert :: "bool option"
  alert_keyword :: "string option"
  region :: "string option"
  domain :: "string option"
  image_url :: "string option"
  raw :: "GdeltArticle option"

record NormalizedNewsItem =
  item_id :: string
  source :: string
  url :: string
  title :: string
  published_at :: string
  fetched_at :: string
  authors :: "string list"
  summary :: string
  content_text :: string
  tickers :: "string list"
  topics :: "string list"
  language :: string
  metadata :: NewsMetadata

section \<open>pipeline: deduplicateItems\<close>

text \<open>
  \<^verbatim>\<open>
  export function deduplicateItems(items: NormalizedNewsItem[]): NormalizedNewsItem[] {
    const seen = new Map<string, NormalizedNewsItem>();
    const titleHashes = new Set<string>();
    for (const item of items) {
      if (seen.has(item.id)) { continue; }
      const normalizedTitle = item.title.toLowerCase().replace(/[^a-z0-9]/g, '');
      const titleHash = hashCode(normalizedTitle);
      if (titleHashes.has(titleHash)) { continue; }
      seen.set(item.id, item);
      titleHashes.add(titleHash);
    }
    return Array.from(seen.values());
  }
  \<close>
  A \<open>Map\<close> iterates in insertion order and \<open>set\<close> on a key it holds keeps the key's
  place: it is an association list under \<^const>\<open>AList.update\<close>.
\<close>

definition normalizedTitle :: "string \<Rightarrow> string" where
  "normalizedTitle t = filter (\<lambda>c. isLower c \<or> isDigit c) (toLowerCase t)"

definition titleHash :: "NormalizedNewsItem \<Rightarrow> string" where
  "titleHash item = hashCode (normalizedTitle (title item))"

record dedup_state =
  seen :: "(string \<times> NormalizedNewsItem) list"
  titleHashes :: "string set"

definition dedupStep :: "dedup_state \<Rightarrow> NormalizedNewsItem \<Rightarrow> dedup_state" where
  "dedupStep st item =
     (if map_of (seen st) (item_id item) \<noteq> None then st
      else if titleHash item \<in> titleHashes st then st
      else \<lparr>seen = AList.update (item_id item) item (seen st),
            titleHashes = insert (titleHash item) (titleHashes st)\<rparr>)"

definition deduplicateItems :: "NormalizedNewsItem list \<Rightarrow> NormalizedNewsItem list" where
  "deduplicateItems items =
     map snd (seen (foldl dedupStep \<lparr>seen = [], titleHashes = {}\<rparr> items))"

text \<open>
  The deduplication rule in the specification's words, for comparison with the loop: the
  records are read in input order against a set of ids and a set of title fingerprints;
  a record is dropped if its id or its fingerprint is in its set, otherwise it is kept and
  both sets grow.
\<close>

fun firstSeen :: "string set \<Rightarrow> string set \<Rightarrow> NormalizedNewsItem list \<Rightarrow> NormalizedNewsItem list" where
  "firstSeen ids fps [] = []"
| "firstSeen ids fps (x # xs) =
     (if item_id x \<in> ids \<or> titleHash x \<in> fps then firstSeen ids fps xs
      else x # firstSeen (insert (item_id x) ids) (insert (titleHash x) fps) xs)"


section \<open>Regular expressions\<close>

text \<open>
  The regular expressions of the source are data: the constructors below are the
  operators they use. A cursor is a position in the input: the code unit before it
  (\<open>None\<close> at the start of the input) and the input from it on. \<open>matches r cur\<close> lists
  the cursors at which a match of \<open>r\<close> that starts at \<open>cur\<close> can end, in the order in which
  the backtracking matcher of ECMAScript tries them; the head is the match it reports.
  Under the flag \<open>i\<close> a literal letter stands for both of its cases (\<open>LitI\<close>) and the
  classes are written with both cases.
\<close>

type_synonym cursor = "char option \<times> string"

datatype regex =
    Class "char \<Rightarrow> bool"
  | Lit string
  | LitI string
  | Cat regex regex
  | Alt regex regex
  | Repeat "char \<Rightarrow> bool" nat "nat option"
  | Lookahead regex
  | WordBoundary
  | Start
  | End

definition isSpace :: "char \<Rightarrow> bool" where
  \<comment> \<open>\<open>\s\<close>, and what \<open>trim\<close> strips: tab, LF, VT, FF, CR, space, no-break space\<close>
  "isSpace c = (charCode c \<in> {9, 10, 11, 12, 13, 32, 160})"

definition isWordChar :: "char \<Rightarrow> bool" where
  \<comment> \<open>\<open>\w\<close>\<close>
  "isWordChar c = (isUpper c \<or> isLower c \<or> isDigit c \<or> c = CHR ''_'')"

definition isLetter :: "char \<Rightarrow> bool" where
  \<comment> \<open>\<open>[A-Za-z]\<close>, and \<open>[A-Z]\<close> under the flag \<open>i\<close>\<close>
  "isLetter c = (isUpper c \<or> isLower c)"

fun startsWithI :: "string \<Rightarrow> string \<Rightarrow> bool" where
  "startsWithI s [] = True"
| "startsWithI [] (k # ks) = False"
| "startsWithI (c # cs) (k # ks) = (lowerChar c = lowerChar k \<and> startsWithI cs ks)"

text \<open>The cursor after \<open>n\<close> more code units.\<close>

definition skip :: "nat \<Rightarrow> cursor \<Rightarrow> cursor" where
  "skip n cur =
     (if n = 0 \<or> snd cur = [] then cur
      else (Some (last (take n (snd cur))), drop n (snd cur)))"

text \<open>
  The cursors after 0, 1, 2, ... code units of a class, the fewest first, as far as the
  class and the bound reach.
\<close>

fun advance :: "(char \<Rightarrow> bool) \<Rightarrow> nat option \<Rightarrow> cursor \<Rightarrow> cursor list" where
  "advance p n (prev, []) = [(prev, [])]"
| "advance p n (prev, c # cs) =
     (prev, c # cs) #
       (if p c \<and> n \<noteq> Some 0 then advance p (map_option (\<lambda>k. k - 1) n) (Some c, cs) else [])"

definition wordBefore :: "cursor \<Rightarrow> bool" where
  "wordBefore cur = (case fst cur of None \<Rightarrow> False | Some c \<Rightarrow> isWordChar c)"

definition wordAfter :: "cursor \<Rightarrow> bool" where
  "wordAfter cur = (case snd cur of [] \<Rightarrow> False | c # cs \<Rightarrow> isWordChar c)"

primrec matches :: "regex \<Rightarrow> cursor \<Rightarrow> cursor list" where
  "matches (Class p) cur =
     (case snd cur of [] \<Rightarrow> [] | c # cs \<Rightarrow> if p c then [(Some c, cs)] else [])"
| "matches (Lit s) cur = (if startsWith (snd cur) s then [skip (length s) cur] else [])"
| "matches (LitI s) cur = (if startsWithI (snd cur) s then [skip (length s) cur] else [])"
| "matches (Cat a b) cur = concat (map (matches b) (matches a cur))"
| "matches (Alt a b) cur = matches a cur @ matches b cur"
| "matches (Repeat p m n) cur = rev (drop m (advance p n cur))"
| "matches (Lookahead a) cur = (if matches a cur = [] then [] else [cur])"
| "matches WordBoundary cur = (if wordBefore cur \<noteq> wordAfter cur then [cur] else [])"
| "matches Start cur = (if fst cur = None then [cur] else [])"
| "matches End cur = (if snd cur = [] then [cur] else [])"

text \<open>\<open>str.match(r)\<close> for a regular expression without the flag \<open>g\<close>: the leftmost match.\<close>

fun search :: "regex \<Rightarrow> cursor \<Rightarrow> (cursor \<times> cursor) option" where
  "search r (prev, []) =
     (case matches r (prev, []) of [] \<Rightarrow> None | e # es \<Rightarrow> Some ((prev, []), e))"
| "search r (prev, c # cs) =
     (case matches r (prev, c # cs) of
        [] \<Rightarrow> search r (Some c, cs)
      | e # es \<Rightarrow> Some ((prev, c # cs), e))"

definition isMatch :: "regex \<Rightarrow> string \<Rightarrow> bool" where
  "isMatch r s = (search r (None, s) \<noteq> None)"

text \<open>
  \<open>str.replace(r, rep)\<close> with the flag \<open>g\<close>: every match, left to right, each search
  starting where the match before it ended; after an empty match the next code unit is
  copied and the search goes on behind it.
\<close>

function replaceFrom :: "regex \<Rightarrow> string \<Rightarrow> cursor \<Rightarrow> string" where
  "replaceFrom r rep (prev, rest) =
     (case matches r (prev, rest) of
        [] \<Rightarrow> (case rest of [] \<Rightarrow> [] | c # cs \<Rightarrow> c # replaceFrom r rep (Some c, cs))
      | e # es \<Rightarrow>
          if length (snd e) < length rest then rep @ replaceFrom r rep e
          else rep @ (case rest of [] \<Rightarrow> [] | c # cs \<Rightarrow> c # replaceFrom r rep (Some c, cs)))"
  by pat_completeness auto
termination
  by (relation "measure (\<lambda>(r, rep, cur). length (snd cur))") auto

declare replaceFrom.simps [simp del]

definition replaceAll :: "regex \<Rightarrow> string \<Rightarrow> string \<Rightarrow> string" where
  "replaceAll r rep s = replaceFrom r rep (None, s)"

text \<open>\<open>str.replace(r, rep)\<close> without the flag \<open>g\<close>: the leftmost match only.\<close>

definition replaceFirst :: "regex \<Rightarrow> string \<Rightarrow> string \<Rightarrow> string" where
  "replaceFirst r rep s =
     (case search r (None, s) of
        None \<Rightarrow> s
      | Some (b, e) \<Rightarrow> take (length s - length (snd b)) s @ rep @ snd e)"

definition trim :: "string \<Rightarrow> string" where
  "trim s = rev (dropWhile isSpace (rev (dropWhile isSpace s)))"

section \<open>utils: stripHtml; parsers: cleanText\<close>

text \<open>
  \<^verbatim>\<open>
  export function stripHtml(html: string): string {
    if (!html) return '';
    let text = html.replace(/<[^>]*>/g, ' ');
    text = text
      .replace(/&amp;/g, '&').replace(/&lt;/g, '<').replace(/&gt;/g, '>')
      .replace(/&quot;/g, '"').replace(/&#39;/g, "'").replace(/&nbsp;/g, ' ');
    text = text.replace(/\s+/g, ' ').trim();
    return text;
  }
  \<close>
\<close>

definition reTag :: regex where
  "reTag = Cat (Lit ''<'') (Cat (Repeat (\<lambda>c. c \<noteq> CHR ''>'') 0 None) (Lit ''>''))"

definition reSpaces :: regex where
  "reSpaces = Repeat isSpace 1 None"

definition stripHtml :: "string \<Rightarrow> string" where
  "stripHtml html =
     (if html = [] then []
      else trim (replaceAll reSpaces '' ''
        (replaceAll (Lit ''&nbsp;'') '' ''
        (replaceAll (Lit ''&#39;'') [CHR 0x27]
        (replaceAll (Lit ''&quot;'') [CHR 0x22]
        (replaceAll (Lit ''&gt;'') ''>''
        (replaceAll (Lit ''&lt;'') ''<''
        (replaceAll (Lit ''&amp;'') ''&''
        (replaceAll reTag '' '' html)))))))))"

text \<open>
  \<^verbatim>\<open>
  export function cleanText(text: string): string {
    if (!text) return '';
    let clean = stripHtml(text);
    clean = clean
      .replace(/\[<U+00E2><U+20AC><U+00A6>\]/g, '...')
      .replace(/\[\.\.\.\]/g, '...')
      .replace(/Continue reading\.\.\.$/i, '')
      .replace(/Read more\.\.\.$/i, '')
      .replace(/\s+/g, ' ')
      .trim();
    return clean;
  }
  \<close>
  The first pattern asks for the code unit U+20AC between the brackets. No string of the
  model holds it (its code units are below 256), so that replacement changes nothing here
  and is left out.
\<close>

definition reContinueReading :: regex where
  "reContinueReading = Cat (LitI ''Continue reading...'') End"

definition reReadMore :: regex where
  "reReadMore = Cat (LitI ''Read more...'') End"

definition cleanText :: "string \<Rightarrow> string" where
  "cleanText text =
     (if text = [] then []
      else trim (replaceAll reSpaces '' ''
        (replaceFirst reReadMore []
        (replaceFirst reContinueReading []
        (replaceAll (Lit ''[...]'') ''...''
        (stripHtml text))))))"

section \<open>parsers: extractSummary\<close>

text \<open>\<open>s.lastIndexOf(c)\<close> for a single code unit: \<open>-1\<close> when \<open>c\<close> does not occur.\<close>

fun lastIndexFrom :: "char \<Rightarrow> string \<Rightarrow> int \<Rightarrow> int \<Rightarrow> int" where
  "lastIndexFrom c [] i found = found"
| "lastIndexFrom c (x # xs) i found = lastIndexFrom c xs (i + 1) (if x = c then i else found)"

definition lastIndexOf :: "string \<Rightarrow> char \<Rightarrow> int" where
  "lastIndexOf s c = lastIndexFrom c s 0 (- 1)"

text \<open>
  The product \<open>maxLength * 0.7\<close> is a product of doubles. The double \<open>0.7\<close> is
  \<open>3152519739159347 / 2^52\<close>, \<open>maxLength\<close> is an integer below \<open>2^53\<close>, and the product
  is their exact product rounded to 53 significant bits, ties to even. \<open>times07 n\<close> is the
  numerator of that double over \<open>2^52\<close>. The product \<open>maxLength * 0.5\<close> is exact.
\<close>

fun bitLength :: "nat \<Rightarrow> nat" where
  "bitLength n = (if n = 0 then 0 else Suc (bitLength (n div 2)))"

declare bitLength.simps [simp del]

definition roundTo53 :: "nat \<Rightarrow> nat" where
  "roundTo53 p =
     (if bitLength p \<le> 53 then p
      else let s = bitLength p - 53; q = p div 2 ^ s; r = p mod 2 ^ s; h = 2 ^ (s - 1)
           in (if h < r \<or> (r = h \<and> odd q) then q + 1 else q) * 2 ^ s)"

definition times07 :: "nat \<Rightarrow> nat" where
  "times07 n = roundTo53 (n * 3152519739159347)"

definition exceedsHalf :: "int \<Rightarrow> nat \<Rightarrow> bool" where
  \<comment> \<open>\<open>pos > maxLength * 0.5\<close>\<close>
  "exceedsHalf pos maxLength = (int maxLength < 2 * pos)"

definition exceeds07 :: "int \<Rightarrow> nat \<Rightarrow> bool" where
  \<comment> \<open>\<open>pos > maxLength * 0.7\<close>\<close>
  "exceeds07 pos maxLength = (int (times07 maxLength) < pos * 2 ^ 52)"

text \<open>
  \<^verbatim>\<open>
  export function extractSummary(content: string, maxLength = 300): string {
    if (!content) return '';
    const clean = cleanText(content);
    if (clean.length <= maxLength) return clean;
    const truncated = clean.slice(0, maxLength);
    const lastPeriod = truncated.lastIndexOf('.');
    const lastQuestion = truncated.lastIndexOf('?');
    const lastExclaim = truncated.lastIndexOf('!');
    const boundary = Math.max(lastPeriod, lastQuestion, lastExclaim);
    if (boundary > maxLength * 0.5) {
      return clean.slice(0, boundary + 1);
    }
    const lastSpace = truncated.lastIndexOf(' ');
    if (lastSpace > maxLength * 0.7) {
      return clean.slice(0, lastSpace) + '...';
    }
    return truncated + '...';
  }
  \<close>
  \<open>maxLength\<close> is a length: a natural number.
\<close>

definition extractSummary :: "string \<Rightarrow> nat \<Rightarrow> string" where
  "extractSummary content maxLength =
     (if content = [] then []
      else let clean = cleanText content in
        if length clean \<le> maxLength then clean
        else let truncated = take maxLength clean;
                 lastPeriod = lastIndexOf truncated (CHR ''.'');
                 lastQuestion = lastIndexOf truncated (CHR ''?'');
                 lastExclaim = lastIndexOf truncated (CHR ''!'');
                 boundary = max (max lastPeriod lastQuestion) lastExclaim
             in if exceedsHalf boundary maxLength then take (nat (boundary + 1)) clean
                else let lastSpace = lastIndexOf truncated (CHR '' '')
                     in if exceeds07 lastSpace maxLength then take (nat lastSpace) clean @ ''...''
                        else truncated @ ''...'')"

section \<open>config: keyword tables and detectors\<close>

definition ALERT_KEYWORDS :: "string list" where
  "ALERT_KEYWORDS =
     [''war'', ''invasion'', ''military'', ''nuclear'', ''sanctions'', ''missile'', ''attack'',
      ''troops'', ''conflict'', ''strike'', ''bomb'', ''casualties'', ''ceasefire'', ''treaty'',
      ''nato'', ''coup'', ''martial law'', ''emergency'', ''assassination'', ''terrorist'',
      ''hostage'', ''evacuation'']"

text \<open>
  \<open>Object.entries\<close> lists the keys of these tables in the order in which they are written:
  the tables are association lists.
\<close>

definition REGION_KEYWORDS :: "(string \<times> string list) list" where
  "REGION_KEYWORDS =
     [(''EUROPE'', [''nato'', ''eu'', ''european'', ''ukraine'', ''russia'', ''germany'', ''france'',
                   ''uk'', ''britain'', ''poland'']),
      (''MENA'', [''iran'', ''israel'', ''saudi'', ''syria'', ''iraq'', ''gaza'', ''lebanon'', ''yemen'',
                 ''houthi'', ''middle east'']),
      (''APAC'', [''china'', ''taiwan'', ''japan'', ''korea'', ''indo-pacific'', ''south china sea'',
                 ''asean'', ''philippines'']),
      (''AMERICAS'', [''us'', ''america'', ''canada'', ''mexico'', ''brazil'', ''venezuela'', ''latin'']),
      (''AFRICA'', [''africa'', ''sahel'', ''niger'', ''sudan'', ''ethiopia'', ''somalia''])]"

definition TOPIC_KEYWORDS :: "(string \<times> string list) list" where
  "TOPIC_KEYWORDS =
     [(''CYBER'', [''cyber'', ''hack'', ''ransomware'', ''malware'', ''breach'', ''apt'',
                  ''vulnerability'']),
      (''NUCLEAR'', [''nuclear'', ''icbm'', ''warhead'', ''nonproliferation'', ''uranium'',
                    ''plutonium'']),
      (''CONFLICT'', [''war'', ''military'', ''troops'', ''invasion'', ''strike'', ''missile'',
                     ''combat'', ''offensive'']),
      (''INTEL'', [''intelligence'', ''espionage'', ''spy'', ''cia'', ''mossad'', ''fsb'', ''covert'']),
      (''DEFENSE'', [''pentagon'', ''dod'', ''defense'', ''military'', ''army'', ''navy'',
                    ''air force'']),
      (''DIPLO'', [''diplomat'', ''embassy'', ''treaty'', ''sanctions'', ''talks'', ''summit'',
                  ''bilateral'']),
      (''FINANCE'', [''fed'', ''interest rate'', ''inflation'', ''gdp'', ''unemployment'',
                    ''recession'', ''rally'', ''crash'']),
      (''CRYPTO'', [''bitcoin'', ''ethereum'', ''crypto'', ''blockchain'', ''defi'', ''nft'',
                   ''stablecoin'']),
      (''TECH'', [''ai'', ''artificial intelligence'', ''machine learning'', ''startup'', ''ipo'',
                 ''acquisition'', ''layoff''])]"

text \<open>
  \<^verbatim>\<open>
  export function containsAlertKeyword(text: string): { is_alert: boolean; keyword?: string } {
    const lowerText = text.toLowerCase();
    for (const keyword of ALERT_KEYWORDS) {
      if (lowerText.includes(keyword)) { return { is_alert: true, keyword }; }
    }
    return { is_alert: false };
  }
  \<close>
\<close>

record AlertResult =
  alert :: bool
  keyword :: "string option"

definition containsAlertKeyword :: "string \<Rightarrow> AlertResult" where
  "containsAlertKeyword text =
     (case find (includesStr (toLowerCase text)) ALERT_KEYWORDS of
        Some k \<Rightarrow> \<lparr>alert = True, keyword = Some k\<rparr>
      | None \<Rightarrow> \<lparr>alert = False, keyword = None\<rparr>)"

text \<open>
  \<^verbatim>\<open>
  export function detectRegion(text: string): string | null {
    const lowerText = text.toLowerCase();
    for (const [region, keywords] of Object.entries(REGION_KEYWORDS)) {
      if (keywords.some((k) => lowerText.includes(k))) { return region; }
    }
    return null;
  }
  export function detectTopics(text: string): string[] {
    const lowerText = text.toLowerCase();
    const detected: string[] = [];
    for (const [topic, keywords] of Object.entries(TOPIC_KEYWORDS)) {
      if (keywords.some((k) => lowerText.includes(k))) { detected.push(topic); }
    }
    return detected;
  }
  \<close>
\<close>

definition detectRegion :: "string \<Rightarrow> string option" where
  "detectRegion text =
     map_option fst
       (find (\<lambda>entry. list_ex (includesStr (toLowerCase text)) (snd entry)) REGION_KEYWORDS)"

definition detectTopics :: "string \<Rightarrow> string list" where
  "detectTopics text =
     map fst
       (filter (\<lambda>entry. list_ex (includesStr (toLowerCase text)) (snd entry)) TOPIC_KEYWORDS)"

section \<open>config: extractTickers\<close>

text \<open>
  \<^verbatim>\<open>
  export const TICKER_PATTERNS = [
    // Stock tickers: $AAPL or AAPL (1-5 uppercase letters)
    /\$([A-Z]{1,5})\b/g,
    /\b([A-Z]{2,5})\b(?=\s+(?:stock|shares|inc|corp|ltd))/gi,
    // Crypto: BTC, ETH, etc.
    /\b(BTC|ETH|SOL|XRP|ADA|DOGE|DOT|AVAX|MATIC|LINK)\b/gi,
  ];
  \<close>
  Each pattern comes with the offset of its capture group: the group begins that many
  code units behind the start of the match (behind the \<open>$\<close> in the first pattern) and ends
  where the match ends (the lookahead of the second pattern consumes nothing). The second
  and the third pattern carry the flag \<open>i\<close>.
\<close>

definition reDollarSymbol :: regex where
  "reDollarSymbol = Cat (Lit ''$'') (Cat (Repeat isUpper 1 (Some 5)) WordBoundary)"

definition reContextWord :: regex where
  "reContextWord =
     Alt (LitI ''stock'') (Alt (LitI ''shares'') (Alt (LitI ''inc'') (Alt (LitI ''corp'') (LitI ''ltd''))))"

definition reBareToken :: regex where
  "reBareToken =
     Cat WordBoundary (Cat (Repeat isLetter 2 (Some 5)) (Cat WordBoundary
       (Lookahead (Cat (Repeat isSpace 1 None) reContextWord))))"

definition reCryptoSymbol :: regex where
  "reCryptoSymbol =
     Cat WordBoundary (Cat
       (Alt (LitI ''BTC'') (Alt (LitI ''ETH'') (Alt (LitI ''SOL'') (Alt (LitI ''XRP'')
       (Alt (LitI ''ADA'') (Alt (LitI ''DOGE'') (Alt (LitI ''DOT'') (Alt (LitI ''AVAX'')
       (Alt (LitI ''MATIC'') (LitI ''LINK''))))))))))
       WordBoundary)"

definition TICKER_PATTERNS :: "(regex \<times> nat) list" where
  "TICKER_PATTERNS = [(reDollarSymbol, 1), (reBareToken, 0), (reCryptoSymbol, 0)]"

text \<open>
  \<^verbatim>\<open>
  export function extractTickers(text: string): string[] {
    const tickers = new Set<string>();
    for (const pattern of TICKER_PATTERNS) {
      pattern.lastIndex = 0;
      let match;
      while ((match = pattern.exec(text)) !== null) {
        tickers.add(match[1].toUpperCase());
      }
    }
    return Array.from(tickers);
  }
  \<close>
  \<open>exec\<close> on a pattern with the flag \<open>g\<close> searches from \<open>lastIndex\<close> and moves
  \<open>lastIndex\<close> to the end of the match. After an empty match \<open>lastIndex\<close> stands still and
  the \<open>while\<close> loop finds the same match for ever: \<open>execAll\<close> is \<open>None\<close> then.
\<close>

function execAll :: "regex \<Rightarrow> cursor \<Rightarrow> (cursor \<times> cursor) list option" where
  "execAll r cur =
     (case search r cur of
        None \<Rightarrow> Some []
      | Some (b, e) \<Rightarrow>
          if length (snd e) < length (snd cur) then map_option ((#) (b, e)) (execAll r e)
          else None)"
  by pat_completeness auto
termination
  by (relation "measure (\<lambda>(r, cur). length (snd cur))") auto

declare execAll.simps [simp del]

definition group1 :: "nat \<Rightarrow> cursor \<times> cursor \<Rightarrow> string" where
  "group1 offset m =
     drop offset (take (length (snd (fst m)) - length (snd (snd m))) (snd (fst m)))"

text \<open>
  \<open>toUpperCase\<close> on a captured token. The tokens of the three patterns are made of the
  letters A-Z and a-z, where it moves a-z down by 32.
\<close>

definition upperChar :: "char \<Rightarrow> char" where
  "upperChar c = (if isLower c then char_of (charCode c - 32) else c)"

definition toUpperCase :: "string \<Rightarrow> string" where
  "toUpperCase s = map upperChar s"

text \<open>\<open>Set.prototype.add\<close>, the set in insertion order.\<close>

definition setAdd :: "string \<Rightarrow> string list \<Rightarrow> string list" where
  "setAdd x xs = (if x \<in> set xs then xs else xs @ [x])"

definition addMatches :: "string \<Rightarrow> string list option \<Rightarrow> regex \<times> nat \<Rightarrow> string list option" where
  "addMatches text acc pattern =
     (case acc of
        None \<Rightarrow> None
      | Some found \<Rightarrow>
          (case execAll (fst pattern) (None, text) of
             None \<Rightarrow> None
           | Some ms \<Rightarrow>
               Some (foldl (\<lambda>ts m. setAdd (toUpperCase (group1 (snd pattern) m)) ts) found ms)))"

definition extractTickers :: "string \<Rightarrow> string list option" where
  "extractTickers text = foldl (addMatches text) (Some []) TICKER_PATTERNS"

section \<open>The platform: Date and URL\<close>

text \<open>
  A time value is a number of milliseconds since the epoch, \<open>None\<close> is \<open>NaN\<close> (an invalid
  date). \<open>new Date(s).getTime()\<close> is the engine's \<open>Date.parse\<close>, which ECMAScript fixes
  on its date-time format only: it is a parameter of the model, and so is the host name
  that \<open>new URL(url)\<close> finds (\<open>None\<close> when the constructor throws).
\<close>

record platform =
  dateParse :: "string \<Rightarrow> int option"
  urlHostname :: "string \<Rightarrow> string option"

text \<open>
  \<open>Date.prototype.toISOString\<close> on a valid time value: \<open>YYYY-MM-DDTHH:mm:ss.sssZ\<close> in
  UTC, the year with a sign and six digits outside 0..9999. The date of a day number
  follows the proleptic Gregorian calendar (eras of 400 years, counted from 1 March).
\<close>

definition civilFromDays :: "int \<Rightarrow> int \<times> int \<times> int" where
  "civilFromDays days =
     (let z = days + 719468;
          era = z div 146097;
          doe = z - era * 146097;
          yoe = (doe - doe div 1460 + doe div 36524 - doe div 146096) div 365;
          doy = doe - (365 * yoe + yoe div 4 - yoe div 100);
          mp = (5 * doy + 2) div 153;
          d = doy - (153 * mp + 2) div 5 + 1;
          m = (if mp < 10 then mp + 3 else mp - 9);
          y = yoe + era * 400 + (if m \<le> 2 then 1 else 0)
      in (y, m, d))"

definition daysFromCivil :: "int \<Rightarrow> int \<Rightarrow> int \<Rightarrow> int" where
  "daysFromCivil y m d =
     (let y' = (if m \<le> 2 then y - 1 else y);
          era = y' div 400;
          yoe = y' - era * 400;
          doy = (153 * (if 2 < m then m - 3 else m + 9) + 2) div 5 + d - 1;
          doe = yoe * 365 + yoe div 4 - yoe div 100 + doy
      in era * 146097 + doe - 719468)"

definition decimalDigit :: "int \<Rightarrow> char" where
  "decimalDigit d = ''0123456789'' ! nat d"

definition pad :: "nat \<Rightarrow> int \<Rightarrow> string" where
  "pad width v = map (\<lambda>i. decimalDigit (v div 10 ^ i mod 10)) (rev [0..<width])"

definition yearString :: "int \<Rightarrow> string" where
  "yearString y =
     (if 0 \<le> y \<and> y \<le> 9999 then pad 4 y
      else (if y < 0 then ''-'' else ''+'') @ pad 6 \<bar>y\<bar>)"

definition toISOString :: "int \<Rightarrow> string" where
  "toISOString t =
     (let days = t div 86400000;
          ms = t mod 86400000;
          ymd = civilFromDays days
      in yearString (fst ymd) @ ''-'' @ pad 2 (fst (snd ymd)) @ ''-'' @ pad 2 (snd (snd ymd))
         @ ''T'' @ pad 2 (ms div 3600000) @ '':'' @ pad 2 (ms div 60000 mod 60)
         @ '':'' @ pad 2 (ms div 1000 mod 60) @ ''.'' @ pad 3 (ms mod 1000) @ ''Z'')"

text \<open>
  \<open>toISOString\<close> on a date that may be invalid: it throws a \<open>RangeError\<close> on \<open>NaN\<close>. The
  other error of the engine that the code can meet is the \<open>TypeError\<close> of a property read
  on \<open>null\<close> or \<open>undefined\<close>.
\<close>

datatype js_error = RangeError | TypeError

definition dateToISOString :: "int option \<Rightarrow> js_error + string" where
  "dateToISOString d = (case d of None \<Rightarrow> Inl RangeError | Some t \<Rightarrow> Inr (toISOString t))"

text \<open>
  An engine for closed examples: \<open>Date.parse\<close> on the two forms \<open>YYYY-MM-DD\<close> and
  \<open>YYYY-MM-DDTHH:mm:ssZ\<close> of the ECMAScript format (both UTC), with every field in range,
  and \<open>NaN\<close> on every other string.
\<close>

definition decimalValue :: "string \<Rightarrow> int" where
  "decimalValue s = foldl (\<lambda>a c. 10 * a + (int (charCode c) - 48)) 0 s"

definition reIsoDay :: regex where
  "reIsoDay =
     Cat Start (Cat (Repeat isDigit 4 (Some 4)) (Cat (Lit ''-'') (Cat (Repeat isDigit 2 (Some 2))
       (Cat (Lit ''-'') (Cat (Repeat isDigit 2 (Some 2)) End)))))"

definition reIsoSecondsZ :: regex where
  "reIsoSecondsZ =
     Cat Start (Cat (Repeat isDigit 4 (Some 4)) (Cat (Lit ''-'') (Cat (Repeat isDigit 2 (Some 2))
       (Cat (Lit ''-'') (Cat (Repeat isDigit 2 (Some 2)) (Cat (Lit ''T'')
       (Cat (Repeat isDigit 2 (Some 2)) (Cat (Lit '':'') (Cat (Repeat isDigit 2 (Some 2))
       (Cat (Lit '':'') (Cat (Repeat isDigit 2 (Some 2)) (Cat (Lit ''Z'') End))))))))))))"

definition daysInMonth :: "int \<Rightarrow> int \<Rightarrow> int" where
  "daysInMonth y m =
     (if m = 2 then (if y mod 4 = 0 \<and> (y mod 100 \<noteq> 0 \<or> y mod 400 = 0) then 29 else 28)
      else if m \<in> {4, 6, 9, 11} then 30 else 31)"

definition utcTime :: "int \<Rightarrow> int \<Rightarrow> int \<Rightarrow> int \<Rightarrow> int \<Rightarrow> int \<Rightarrow> int option" where
  "utcTime y m d hh mm ss =
     (if 1 \<le> m \<and> m \<le> 12 \<and> 1 \<le> d \<and> d \<le> daysInMonth y m \<and> hh < 24 \<and> mm < 60 \<and> ss < 60
      then Some (daysFromCivil y m d * 86400000 + hh * 3600000 + mm * 60000 + ss * 1000)
      else None)"

definition isoParse :: "string \<Rightarrow> int option" where
  "isoParse s =
     (if isMatch reIsoDay s
      then utcTime (decimalValue (take 4 s)) (decimalValue (take 2 (drop 5 s)))
             (decimalValue (take 2 (drop 8 s))) 0 0 0
      else if isMatch reIsoSecondsZ s
      then utcTime (decimalValue (take 4 s)) (decimalValue (take 2 (drop 5 s)))
             (decimalValue (take 2 (drop 8 s))) (decimalValue (take 2 (drop 11 s)))
             (decimalValue (take 2 (drop 14 s))) (decimalValue (take 2 (drop 17 s)))
      else None)"

definition isoEngine :: platform where
  "isoEngine = \<lparr>dateParse = isoParse, urlHostname = (\<lambda>u. None)\<rparr>"

section \<open>utils: parseGdeltDate and extractDomain\<close>

text \<open>
  \<^verbatim>\<open>
  export function parseGdeltDate(dateStr: string): string {
    if (!dateStr) return new Date().toISOString();
    const match = dateStr.match(/^(\d{4})(\d{2})(\d{2})T(\d{2})(\d{2})(\d{2})Z$/);
    if (match) {
      const [, year, month, day, hour, min, sec] = match;
      return `${year}-${month}-${day}T${hour}:${min}:${sec}Z`;
    }
    try { return new Date(dateStr).toISOString(); }
    catch { return new Date().toISOString(); }
  }
  \<close>
  The pattern is anchored at both ends and its groups have fixed widths, so the groups
  are the code units 0-3, 4-5, 6-7, 9-10, 11-12 and 13-14 of the string. \<open>now\<close> is the
  reading of the clock.
\<close>

definition reGdeltDate :: regex where
  "reGdeltDate =
     Cat Start (Cat (Repeat isDigit 4 (Some 4)) (Cat (Repeat isDigit 2 (Some 2))
       (Cat (Repeat isDigit 2 (Some 2)) (Cat (Lit ''T'') (Cat (Repeat isDigit 2 (Some 2))
       (Cat (Repeat isDigit 2 (Some 2)) (Cat (Repeat isDigit 2 (Some 2)) (Cat (Lit ''Z'') End))))))))"

definition gdeltToIso :: "string \<Rightarrow> string" where
  "gdeltToIso s =
     take 4 s @ ''-'' @ take 2 (drop 4 s) @ ''-'' @ take 2 (drop 6 s) @ ''T''
       @ take 2 (drop 9 s) @ '':'' @ take 2 (drop 11 s) @ '':'' @ take 2 (drop 13 s) @ ''Z''"

definition parseGdeltDate :: "platform \<Rightarrow> int \<Rightarrow> string \<Rightarrow> string" where
  "parseGdeltDate pf now dateStr =
     (if dateStr = [] then toISOString now
      else if isMatch reGdeltDate dateStr then gdeltToIso dateStr
      else (case dateToISOString (dateParse pf dateStr) of
              Inr stamp \<Rightarrow> stamp
            | Inl e \<Rightarrow> toISOString now))"

text \<open>
  \<^verbatim>\<open>
  export function extractDomain(url: string): string {
    try {
      const parsed = new URL(url);
      return parsed.hostname.replace(/^www\./, '');
    } catch { return ''; }
  }
  \<close>
\<close>

definition extractDomain :: "platform \<Rightarrow> string \<Rightarrow> string" where
  "extractDomain pf u =
     (case urlHostname pf u of
        None \<Rightarrow> []
      | Some host \<Rightarrow> replaceFirst (Cat Start (Lit ''www.'')) [] host)"

section \<open>parsers: parseDate\<close>

text \<open>
  \<^verbatim>\<open>
  export function parseDate(dateStr: string | undefined): string {
    if (!dateStr) return new Date().toISOString();
    try {
      const date = new Date(dateStr);
      if (!isNaN(date.getTime())) { return date.toISOString(); }
    } catch { /* Fall through */ }
    const formats = [
      /^[A-Za-z]{3},?\s+\d{1,2}\s+[A-Za-z]{3}\s+\d{4}\s+\d{2}:\d{2}:\d{2}/,
      /^\d{4}-\d{2}-\d{2}T\d{2}:\d{2}:\d{2}/,
      /^(\d{4})(\d{2})(\d{2})T(\d{2})(\d{2})(\d{2})Z$/,
    ];
    for (const format of formats) {
      const match = dateStr.match(format);
      if (match) {
        try {
          if (match.length === 7) {
            const [, year, month, day, hour, min, sec] = match;
            return new Date(`${year}-${month}-${day}T${hour}:${min}:${sec}Z`).toISOString();
          }
          return new Date(dateStr).toISOString();
        } catch { continue; }
      }
    }
    return new Date().toISOString();
  }
  \<close>
  A format comes with the number of its capture groups: the match array has one entry
  more. The result is a sum, \<open>Inl\<close> for an exception that leaves the function.
\<close>

definition reRfc2822 :: regex where
  "reRfc2822 =
     Cat Start (Cat (Repeat isLetter 3 (Some 3)) (Cat (Repeat (\<lambda>c. c = CHR '','') 0 (Some 1))
       (Cat (Repeat isSpace 1 None) (Cat (Repeat isDigit 1 (Some 2)) (Cat (Repeat isSpace 1 None)
       (Cat (Repeat isLetter 3 (Some 3)) (Cat (Repeat isSpace 1 None) (Cat (Repeat isDigit 4 (Some 4))
       (Cat (Repeat isSpace 1 None) (Cat (Repeat isDigit 2 (Some 2)) (Cat (Lit '':'')
       (Cat (Repeat isDigit 2 (Some 2)) (Cat (Lit '':'') (Repeat isDigit 2 (Some 2)))))))))))))))"

definition reIsoPrefix :: regex where
  "reIsoPrefix =
     Cat Start (Cat (Repeat isDigit 4 (Some 4)) (Cat (Lit ''-'') (Cat (Repeat isDigit 2 (Some 2))
       (Cat (Lit ''-'') (Cat (Repeat isDigit 2 (Some 2)) (Cat (Lit ''T'')
       (Cat (Repeat isDigit 2 (Some 2)) (Cat (Lit '':'') (Cat (Repeat isDigit 2 (Some 2))
       (Cat (Lit '':'') (Repeat isDigit 2 (Some 2))))))))))))"

definition formats :: "(regex \<times> nat) list" where
  "formats = [(reRfc2822, 0), (reIsoPrefix, 0), (reGdeltDate, 6)]"

fun tryFormats :: "platform \<Rightarrow> int \<Rightarrow> string \<Rightarrow> (regex \<times> nat) list \<Rightarrow> js_error + string" where
  "tryFormats pf now dateStr [] = Inr (toISOString now)"
| "tryFormats pf now dateStr (format # rest) =
     (if isMatch (fst format) dateStr
      then (case (if Suc (snd format) = 7
                  then dateToISOString (dateParse pf (gdeltToIso dateStr))
                  else dateToISOString (dateParse pf dateStr)) of
              Inr stamp \<Rightarrow> Inr stamp
            | Inl e \<Rightarrow> tryFormats pf now dateStr rest)
      else tryFormats pf now dateStr rest)"

definition parseDate :: "platform \<Rightarrow> int \<Rightarrow> string option \<Rightarrow> js_error + string" where
  "parseDate pf now dateStr =
     (case dateStr of
        None \<Rightarrow> Inr (toISOString now)
      | Some s \<Rightarrow>
          if s = [] then Inr (toISOString now)
          else (case dateParse pf s of
                  Some t \<Rightarrow> Inr (toISOString t)
                | None \<Rightarrow> tryFormats pf now s formats))"

section \<open>connectors: the GDELT article transform\<close>

text \<open>
  \<^verbatim>\<open>
  function transformArticle(article: GdeltArticle, category: NewsCategory, index: number)
      : NormalizedNewsItem {
    const title = article.title || '';
    const alert = containsAlertKeyword(title);
    const region = detectRegion(title);
    const topics = detectTopics(title);
    return {
      id: generateId(article.url, `gdelt-${category}`),
      source: article.domain || 'GDELT',
      url: article.url,
      title,
      published_at: parseGdeltDate(article.seendate),
      fetched_at: nowISO(),
      authors: [], summary: '', content_text: '', tickers: [],
      topics,
      language: article.language || 'en',
      metadata: {
        category,
        is_alert: alert.is_alert,
        alert_keyword: alert.keyword,
        region: region ?? undefined,
        domain: article.domain,
        image_url: article.socialimage,
        raw: article,
      },
    };
  }
  \<close>
\<close>

fun categoryName :: "NewsCategory \<Rightarrow> string" where
  "categoryName politics = ''politics''"
| "categoryName tech = ''tech''"
| "categoryName finance = ''finance''"
| "categoryName gov = ''gov''"
| "categoryName ai = ''ai''"
| "categoryName intel = ''intel''"
| "categoryName general = ''general''"

text \<open>\<open>a || b\<close> on strings: the empty string is falsy.\<close>

definition orElse :: "string \<Rightarrow> string \<Rightarrow> string" where
  "orElse a b = (if a = [] then b else a)"

definition transformArticle ::
    "platform \<Rightarrow> int \<Rightarrow> GdeltArticle \<Rightarrow> NewsCategory \<Rightarrow> nat \<Rightarrow> NormalizedNewsItem" where
  "transformArticle pf now article cat index =
     (let t = orElse (g_title article) [];
          found = containsAlertKeyword t
      in \<lparr>item_id = generateId (g_url article) (''gdelt-'' @ categoryName cat),
          source = orElse (g_domain article) ''GDELT'',
          url = g_url article,
          title = t,
          published_at = parseGdeltDate pf now (seendate article),
          fetched_at = toISOString now,
          authors = [],
          summary = [],
          content_text = [],
          tickers = [],
          topics = detectTopics t,
          language = (case g_language article of None \<Rightarrow> ''en'' | Some l \<Rightarrow> orElse l ''en''),
          metadata =
            \<lparr>category = Some cat,
             is_alert = Some (alert found),
             alert_keyword = keyword found,
             region = detectRegion t,
             domain = Some (g_domain article),
             image_url = socialimage article,
             raw = Some article\<rparr>\<rparr>)"

section \<open>parsers: normalizeItem\<close>

text \<open>
  \<open>Partial<NormalizedNewsItem>\<close>: every field may be \<open>undefined\<close>.
\<close>

record PartialItem =
  p_id :: "string option"
  p_source :: "string option"
  p_url :: "string option"
  p_title :: "string option"
  p_published_at :: "string option"
  p_fetched_at :: "string option"
  p_authors :: "string list option"
  p_summary :: "string option"
  p_content_text :: "string option"
  p_tickers :: "string list option"
  p_topics :: "string list option"
  p_language :: "string option"
  p_metadata :: "NewsMetadata option"

text \<open>A complete record read as a partial one, as the pipeline passes it on.\<close>

definition asPartial :: "NormalizedNewsItem \<Rightarrow> PartialItem" where
  "asPartial item =
     \<lparr>p_id = Some (item_id item), p_source = Some (source item), p_url = Some (url item),
      p_title = Some (title item), p_published_at = Some (published_at item),
      p_fetched_at = Some (fetched_at item), p_authors = Some (authors item),
      p_summary = Some (summary item), p_content_text = Some (content_text item),
      p_tickers = Some (tickers item), p_topics = Some (topics item),
      p_language = Some (language item), p_metadata = Some (metadata item)\<rparr>"

text \<open>\<open>x || b\<close> for an optional string: \<open>undefined\<close> and the empty string are falsy.\<close>

definition orDefault :: "string option \<Rightarrow> string \<Rightarrow> string" where
  "orDefault x b = (case x of None \<Rightarrow> b | Some a \<Rightarrow> orElse a b)"

text \<open>\<open>xs?.length ? xs : ys\<close> for an optional array.\<close>

definition nonEmptyOr :: "'a list option \<Rightarrow> 'a list \<Rightarrow> 'a list" where
  "nonEmptyOr xs ys = (case xs of None \<Rightarrow> ys | Some l \<Rightarrow> if l = [] then ys else l)"

text \<open>
  \<^verbatim>\<open>
  export function normalizeItem(item: Partial<NormalizedNewsItem>): NormalizedNewsItem {
    const title = cleanText(item.title || '');
    const summary = item.summary ? cleanText(item.summary) : '';
    const content = item.content_text ? cleanText(item.content_text) : '';
    const fullText = `${title} ${summary} ${content}`;
    const topics = item.topics?.length ? item.topics : detectTopics(fullText);
    const tickers = item.tickers?.length ? item.tickers : extractTickers(fullText);
    const region = item.metadata?.region || detectRegion(fullText);
    const alert = item.metadata?.is_alert !== undefined
      ? { is_alert: item.metadata.is_alert, keyword: item.metadata.alert_keyword }
      : containsAlertKeyword(title);
    return {
      id: item.id || '',
      source: item.source || extractDomain(item.url || ''),
      url: item.url || '',
      title,
      published_at: item.published_at || new Date().toISOString(),
      fetched_at: item.fetched_at || new Date().toISOString(),
      authors: item.authors || [],
      summary: summary || extractSummary(content),
      content_text: content,
      tickers,
      topics,
      language: item.language || 'en',
      metadata: {
        ...item.metadata,
        is_alert: alert.is_alert,
        alert_keyword: alert.keyword,
        region: region ?? undefined,
      },
    };
  }
  \<close>
  The result is \<open>None\<close> when the call does not return (the loop of \<open>extractTickers\<close>);
  nothing in the body throws. \<open>now\<close> is the reading of the clock.
\<close>

definition metaRegion :: "NewsMetadata option \<Rightarrow> string option" where
  "metaRegion m = (case m of None \<Rightarrow> None | Some md \<Rightarrow> region md)"

definition metaAlert :: "NewsMetadata option \<Rightarrow> bool option" where
  "metaAlert m = (case m of None \<Rightarrow> None | Some md \<Rightarrow> is_alert md)"

definition metaAlertKeyword :: "NewsMetadata option \<Rightarrow> string option" where
  "metaAlertKeyword m = (case m of None \<Rightarrow> None | Some md \<Rightarrow> alert_keyword md)"

definition emptyMetadata :: NewsMetadata where
  "emptyMetadata =
     \<lparr>category = None, is_alert = None, alert_keyword = None, region = None, domain = None,
      image_url = None, raw = None\<rparr>"

text \<open>\<open>x ? cleanText(x) : ''\<close> for an optional string.\<close>

definition cleanIfSet :: "string option \<Rightarrow> string" where
  "cleanIfSet x = (case x of None \<Rightarrow> [] | Some a \<Rightarrow> if a = [] then [] else cleanText a)"

definition itemFullText :: "PartialItem \<Rightarrow> string" where
  \<comment> \<open>\<open>fullText\<close>: the cleaned title, summary and content, a space between them\<close>
  "itemFullText item =
     cleanText (orDefault (p_title item) []) @ '' ''
       @ cleanIfSet (p_summary item) @ '' ''
       @ cleanIfSet (p_content_text item)"

definition normalizeItem :: "platform \<Rightarrow> int \<Rightarrow> PartialItem \<Rightarrow> NormalizedNewsItem option" where
  "normalizeItem pf now item =
     (let t = cleanText (orDefault (p_title item) []);
          s = cleanIfSet (p_summary item);
          content = cleanIfSet (p_content_text item);
          fullText = itemFullText item;
          tops = nonEmptyOr (p_topics item) (detectTopics fullText);
          ticks = (case p_tickers item of
                     None \<Rightarrow> extractTickers fullText
                   | Some l \<Rightarrow> if l = [] then extractTickers fullText else Some l);
          reg = (case metaRegion (p_metadata item) of
                   None \<Rightarrow> detectRegion fullText
                 | Some r \<Rightarrow> if r = [] then detectRegion fullText else Some r);
          found = (case metaAlert (p_metadata item) of
                     Some b \<Rightarrow> \<lparr>alert = b, keyword = metaAlertKeyword (p_metadata item)\<rparr>
                   | None \<Rightarrow> containsAlertKeyword t)
      in case ticks of
           None \<Rightarrow> None
         | Some tks \<Rightarrow>
             Some \<lparr>item_id = orDefault (p_id item) [],
                   source = orDefault (p_source item) (extractDomain pf (orDefault (p_url item) [])),
                   url = orDefault (p_url item) [],
                   title = t,
                   published_at = orDefault (p_published_at item) (toISOString now),
                   fetched_at = orDefault (p_fetched_at item) (toISOString now),
                   authors = (case p_authors item of None \<Rightarrow> [] | Some a \<Rightarrow> a),
                   summary = orElse s (extractSummary content 300),
                   content_text = content,
                   tickers = tks,
                   topics = tops,
                   language = orDefault (p_language item) ''en'',
                   metadata =
                     (case p_metadata item of None \<Rightarrow> emptyMetadata | Some md \<Rightarrow> md)
                       \<lparr>is_alert := Some (alert found),
                        alert_keyword := keyword found,
                        region := reg\<rparr>\<rparr>)"

section \<open>pipeline: filterItems\<close>

record FilterConfig =
  include_keywords :: "string list option"
  exclude_keywords :: "string list option"
  categories :: "NewsCategory list option"
  regions :: "string list option"
  filter_topics :: "string list option"
  max_age_ms :: "int option"

text \<open>\<open>xs?.length\<close> as a condition: the array is there and not empty.\<close>

definition hasLength :: "'a list option \<Rightarrow> bool" where
  "hasLength xs = (case xs of None \<Rightarrow> False | Some l \<Rightarrow> l \<noteq> [])"

definition listOf :: "'a list option \<Rightarrow> 'a list" where
  "listOf xs = (case xs of None \<Rightarrow> [] | Some l \<Rightarrow> l)"

text \<open>
  \<^verbatim>\<open>
  export function filterItems(items: NormalizedNewsItem[], config: FilterConfig)
      : NormalizedNewsItem[] {
    return items.filter((item) => {
      if (config.categories?.length && item.metadata?.category) {
        if (!config.categories.includes(item.metadata.category)) { return false; }
      }
      if (config.regions?.length && item.metadata?.region) {
        if (!config.regions.includes(item.metadata.region)) { return false; }
      }
      if (config.topics?.length) {
        const hasMatchingTopic = item.topics.some((t) => config.topics!.includes(t));
        if (!hasMatchingTopic) { return false; }
      }
      if (config.include_keywords?.length) {
        const text = `${item.title} ${item.summary}`.toLowerCase();
        const hasKeyword = config.include_keywords.some((k) => text.includes(k.toLowerCase()));
        if (!hasKeyword) { return false; }
      }
      if (config.exclude_keywords?.length) {
        const text = `${item.title} ${item.summary}`.toLowerCase();
        const hasExcluded = config.exclude_keywords.some((k) => text.includes(k.toLowerCase()));
        if (hasExcluded) { return false; }
      }
      if (config.max_age_ms) {
        const itemAge = Date.now() - new Date(item.published_at).getTime();
        if (itemAge > config.max_age_ms) { return false; }
      }
      return true;
    });
  }
  \<close>
  A category is one of seven names, never falsy; a region is a string, falsy when empty.
  \<open>itemAge\<close> is \<open>NaN\<close> when the date is invalid, and no comparison with \<open>NaN\<close> holds.
\<close>

definition categoryRejects :: "FilterConfig \<Rightarrow> NormalizedNewsItem \<Rightarrow> bool" where
  "categoryRejects config item =
     (hasLength (categories config) \<and>
      (case category (metadata item) of
         None \<Rightarrow> False
       | Some c \<Rightarrow> c \<notin> set (listOf (categories config))))"

definition regionRejects :: "FilterConfig \<Rightarrow> NormalizedNewsItem \<Rightarrow> bool" where
  "regionRejects config item =
     (hasLength (regions config) \<and>
      (case region (metadata item) of
         None \<Rightarrow> False
       | Some r \<Rightarrow> r \<noteq> [] \<and> r \<notin> set (listOf (regions config))))"

definition keepItem :: "platform \<Rightarrow> int \<Rightarrow> FilterConfig \<Rightarrow> NormalizedNewsItem \<Rightarrow> bool" where
  "keepItem pf now config item =
     (if categoryRejects config item then False
      else if regionRejects config item then False
      else if hasLength (filter_topics config) \<and>
              \<not> list_ex (\<lambda>t. t \<in> set (listOf (filter_topics config))) (topics item) then False
      else if hasLength (include_keywords config) \<and>
              \<not> list_ex (\<lambda>k. includesStr (toLowerCase (title item @ '' '' @ summary item))
                                 (toLowerCase k)) (listOf (include_keywords config)) then False
      else if hasLength (exclude_keywords config) \<and>
              list_ex (\<lambda>k. includesStr (toLowerCase (title item @ '' '' @ summary item))
                               (toLowerCase k)) (listOf (exclude_keywords config)) then False
      else if (case max_age_ms config of
                 None \<Rightarrow> False
               | Some age \<Rightarrow>
                   age \<noteq> 0 \<and>
                   (case dateParse pf (published_at item) of
                      None \<Rightarrow> False
                    | Some t \<Rightarrow> age < now - t)) then False
      else True)"

definition filterItems ::
    "platform \<Rightarrow> int \<Rightarrow> NormalizedNewsItem list \<Rightarrow> FilterConfig \<Rightarrow> NormalizedNewsItem list" where
  "filterItems pf now items config = filter (keepItem pf now config) items"

section \<open>pipeline: sortItems\<close>

text \<open>
  \<^verbatim>\<open>
  export function sortItems(items: NormalizedNewsItem[]): NormalizedNewsItem[] {
    return [...items].sort((a, b) => {
      const dateA = new Date(a.published_at).getTime();
      const dateB = new Date(b.published_at).getTime();
      return dateB - dateA;
    });
  }
  \<close>
  The comparator returns \<open>NaN\<close> when one of the dates is invalid, and
  \<open>Array.prototype.sort\<close> reads \<open>NaN\<close> as \<open>+0\<close>: \<open>sortCompare\<close> is the comparator as
  \<open>sort\<close> reads it. The code subtracts two doubles that hold whole numbers of
  milliseconds; the difference has the sign of the exact difference, which is all that a
  sort reads of it.

  \<open>Array.prototype.sort\<close> is the engine's, and it is a parameter of the model, as
  \<open>Date.parse\<close> is. ECMAScript fixes its result for a consistent comparator only: the
  sorted permutation, which is stable since ECMAScript 2019. A comparator that returns
  \<open>NaN\<close> on some pairs and a number on others is not consistent, and the order is then
  implementation-defined.
\<close>

type_synonym array_sort =
  "(NormalizedNewsItem \<Rightarrow> NormalizedNewsItem \<Rightarrow> int) \<Rightarrow> NormalizedNewsItem list
     \<Rightarrow> NormalizedNewsItem list"

definition sortCompare :: "platform \<Rightarrow> NormalizedNewsItem \<Rightarrow> NormalizedNewsItem \<Rightarrow> int" where
  "sortCompare pf a b =
     (case (dateParse pf (published_at a), dateParse pf (published_at b)) of
        (Some dateA, Some dateB) \<Rightarrow> dateB - dateA
      | _ \<Rightarrow> 0)"

definition sortItems ::
    "array_sort \<Rightarrow> platform \<Rightarrow> NormalizedNewsItem list \<Rightarrow> NormalizedNewsItem list" where
  "sortItems arraySort pf items = arraySort (sortCompare pf) items"

text \<open>
  What ECMAScript requires of \<open>Array.prototype.sort\<close>: where the comparator has, on the
  elements of the array, the sign of a difference of keys, the result is the array
  sorted by that key, elements with equal keys in their order in the array.
\<close>

definition consistentOn ::
    "('a \<Rightarrow> 'a \<Rightarrow> int) \<Rightarrow> ('a \<Rightarrow> int) \<Rightarrow> 'a set \<Rightarrow> bool" where
  "consistentOn cmp k A = (\<forall>a\<in>A. \<forall>b\<in>A. sgn (cmp a b) = sgn (k a - k b))"

definition obeysSortContract :: "array_sort \<Rightarrow> bool" where
  "obeysSortContract arraySort =
     (\<forall>cmp k xs. consistentOn cmp k (set xs) \<longrightarrow> arraySort cmp xs = sort_key k xs)"

text \<open>
  An engine's sort for closed examples: what V8, the engine of Node.js, does on an array
  of fewer than 64 elements (\<open>ArrayTimSortImpl\<close> in \<open>third_party/v8/builtins/array-sort.tq\<close>;
  the minimal run length is then the length of the array, so there is one run and no
  merge). \<open>CountAndMakeRun\<close> finds the run at the start of the array, the longest prefix
  that ascends or that strictly descends, and reverses it if it descends:
  \<^verbatim>\<open>
    order = Compare(work[low + 1], work[low]);  isDescending = order < 0;
    previousElement = work[low + 1];  runLength = 2;
    for (idx = low + 2; idx < high; ++idx) {
      order = Compare(work[idx], previousElement);
      if (isDescending) { if (order >= 0) break; } else { if (order < 0) break; }
      previousElement = work[idx];  ++runLength;
    }
    if (isDescending) ReverseRange(work, low, low + runLength);
    return runLength;
  \<close>
  \<open>BinaryInsertionSort\<close> then puts each later element \<open>pivot = work[start]\<close> into the
  sorted part \<open>work[low..start)\<close>, at the place that a binary search finds:
  \<^verbatim>\<open>
    left = low;  right = start;
    while (left < right) {
      mid = left + ((right - left) >> 1);
      order = Compare(pivot, work[mid]);
      if (order < 0) right = mid; else left = mid + 1;
    }
  \<close>
  (the code of V8 in outline). On 64 elements and more V8 cuts several runs and merges
  them; \<open>arrayTimSort\<close> is used on short lists only.
\<close>

fun runTail :: "('a \<Rightarrow> 'a \<Rightarrow> int) \<Rightarrow> bool \<Rightarrow> 'a \<Rightarrow> 'a list \<Rightarrow> nat" where
  "runTail cmp isDescending previousElement [] = 0"
| "runTail cmp isDescending previousElement (currentElement # rest) =
     (if (if isDescending then 0 \<le> cmp currentElement previousElement
          else cmp currentElement previousElement < 0)
      then 0
      else Suc (runTail cmp isDescending currentElement rest))"

definition countAndMakeRun :: "('a \<Rightarrow> 'a \<Rightarrow> int) \<Rightarrow> 'a list \<Rightarrow> nat \<times> 'a list" where
  "countAndMakeRun cmp work =
     (case work of
        elementHigh # elementLow # rest \<Rightarrow>
          (let isDescending = cmp elementLow elementHigh < 0;
               runLength = 2 + runTail cmp isDescending elementLow rest
           in (runLength,
               if isDescending then rev (take runLength work) @ drop runLength work else work))
      | _ \<Rightarrow> (1, work))"

function binarySearch ::
    "('a \<Rightarrow> 'a \<Rightarrow> int) \<Rightarrow> 'a list \<Rightarrow> 'a \<Rightarrow> nat \<Rightarrow> nat \<Rightarrow> nat" where
  "binarySearch cmp work pivot left right =
     (if left < right
      then (if cmp pivot (work ! (left + (right - left) div 2)) < 0
            then binarySearch cmp work pivot left (left + (right - left) div 2)
            else binarySearch cmp work pivot (left + (right - left) div 2 + 1) right)
      else left)"
  by pat_completeness auto

termination
  by (relation "measure (\<lambda>(cmp, work, pivot, left, right). right - left)") auto

declare binarySearch.simps [simp del]

text \<open>
  One round of \<open>BinaryInsertionSort\<close>: the sorted part is \<open>work[0..start)\<close>, the pivot is
  \<open>work[start]\<close>, and the elements from the place found move up by one.
\<close>

definition binaryInsert :: "('a \<Rightarrow> 'a \<Rightarrow> int) \<Rightarrow> 'a list \<Rightarrow> 'a \<Rightarrow> 'a list" where
  "binaryInsert cmp sortedPart pivot =
     (let left = binarySearch cmp sortedPart pivot 0 (length sortedPart)
      in take left sortedPart @ pivot # drop left sortedPart)"

definition binaryInsertionSort :: "('a \<Rightarrow> 'a \<Rightarrow> int) \<Rightarrow> 'a list \<Rightarrow> nat \<Rightarrow> 'a list" where
  "binaryInsertionSort cmp work start =
     foldl (binaryInsert cmp) (take start work) (drop start work)"

definition arrayTimSort :: "('a \<Rightarrow> 'a \<Rightarrow> int) \<Rightarrow> 'a list \<Rightarrow> 'a list" where
  "arrayTimSort cmp xs =
     (if length xs < 2 then xs
      else (let run = countAndMakeRun cmp xs
            in if fst run < length xs then binaryInsertionSort cmp (snd run) (fst run)
               else snd run))"

section \<open>pipeline: runPipeline\<close>

datatype stage_name = Fetch | Parse | Filter | Dedup | Store

text \<open>
  An entry of the error list. The interface declares \<open>message: string\<close>; the code stores
  what the \<open>message\<close> property of the thrown value holds, \<open>None\<close> when that is not a string.
\<close>

record PipelineError =
  stage :: stage_name
  error_source :: "string option"
  message :: "string option"
  timestamp :: string

record PipelineStats =
  fetched :: nat
  parsed :: nat
  filtered :: nat
  deduplicated :: nat
  duration_ms :: int

record PipelineResult =
  items :: "NormalizedNewsItem list"
  stats :: PipelineStats
  errors :: "PipelineError list"

text \<open>
  The value that a failing call throws, as far as a \<open>catch\<close> block of \<open>runPipeline\<close> looks
  at it. JavaScript lets a call throw any value: \<open>Nullish\<close> is \<open>null\<close> or \<open>undefined\<close>,
  \<open>WithMessage m\<close> any other value, \<open>m\<close> the string that its \<open>message\<close> property holds
  (\<open>None\<close> when it holds no string). An object whose \<open>message\<close> is an accessor that throws
  has the effect of \<open>Nullish\<close> on the run, with the accessor's error in place of the
  \<open>TypeError\<close>.
\<close>

datatype thrown = Nullish | WithMessage "string option"

text \<open>
  The options after the defaults are merged in. A storage adapter is its \<open>save\<close>: the
  value it throws, or \<open>None\<close> when it saves.
\<close>

type_synonym StorageAdapter = "NormalizedNewsItem list \<Rightarrow> thrown option"

record PipelineOptions =
  opt_categories :: "NewsCategory list"
  useGdelt :: bool
  useRss :: bool
  useIntel :: bool
  opt_filter :: FilterConfig
  storage :: "StorageAdapter option"
  corsProxies :: "string list"

text \<open>
  What a run meets outside the function: the three fetches, each the list it returns or
  the value it throws (\<open>Inl\<close>), the readings of the clock, one for each place where the
  code reads it, and the engine.
\<close>

datatype clock_read = AtStart | AtFetchError string | AtParse | AtFilter | AtStoreError | AtEnd

record environment =
  gdeltFetchAll :: "NewsCategory list \<Rightarrow> thrown + NormalizedNewsItem list"
  rssFetchAll :: "string list \<Rightarrow> NewsCategory list \<Rightarrow> thrown + NormalizedNewsItem list"
  rssFetchIntel :: "string list \<Rightarrow> thrown + NormalizedNewsItem list"
  clock :: "clock_read \<Rightarrow> int"
  host :: platform
  arraySort :: array_sort

text \<open>
  The body of a \<open>catch\<close> block, \<open>{stage, source, message: (error as Error).message,
  timestamp: new Date().toISOString()}\<close>: the entry that it pushes. The cast is erased
  when the code is compiled, and the read of \<open>message\<close> throws a \<open>TypeError\<close> on \<open>null\<close> and
  on \<open>undefined\<close>; no \<open>try\<close> encloses the \<open>catch\<close> blocks, so the \<open>TypeError\<close> leaves
  \<open>runPipeline\<close>.
\<close>

definition catchError ::
    "environment \<Rightarrow> stage_name \<Rightarrow> string option \<Rightarrow> clock_read \<Rightarrow> thrown
      \<Rightarrow> js_error + PipelineError" where
  "catchError env stg src reading error =
     (case error of
        Nullish \<Rightarrow> Inl TypeError
      | WithMessage msg \<Rightarrow>
          Inr \<lparr>stage = stg, error_source = src, message = msg,
               timestamp = toISOString (clock env reading)\<rparr>)"

text \<open>
  One block \<open>if (opts.useX) { try { ... allItems.push(...items) } catch (error) {
  errors.push({stage: 'fetch', source, message, timestamp}) } }\<close> of the fetch stage.
\<close>

definition fetchFamily ::
    "environment \<Rightarrow> bool \<Rightarrow> string \<Rightarrow> thrown + NormalizedNewsItem list
      \<Rightarrow> NormalizedNewsItem list \<times> PipelineError list
      \<Rightarrow> js_error + NormalizedNewsItem list \<times> PipelineError list" where
  "fetchFamily env enabled name outcome acc =
     (if \<not> enabled then Inr acc
      else (case outcome of
              Inr fetchedItems \<Rightarrow> Inr (fst acc @ fetchedItems, snd acc)
            | Inl error \<Rightarrow>
                (case catchError env Fetch (Some name) (AtFetchError name) error of
                   Inl raised \<Rightarrow> Inl raised
                 | Inr entry \<Rightarrow> Inr (fst acc, snd acc @ [entry]))))"

text \<open>
  \<open>Object.keys(opts.filter).length > 0\<close>. A key whose value is \<open>undefined\<close> also counts
  in the source; \<open>filterItems\<close> then runs with a configuration that removes nothing, which
  gives the result of not running it.
\<close>

definition filterGiven :: "FilterConfig \<Rightarrow> bool" where
  "filterGiven config =
     (include_keywords config \<noteq> None \<or> exclude_keywords config \<noteq> None \<or>
      categories config \<noteq> None \<or> regions config \<noteq> None \<or>
      filter_topics config \<noteq> None \<or> max_age_ms config \<noteq> None)"

text \<open>\<open>allItems.map((item) => normalizeItem(item))\<close>: \<open>None\<close> if a call does not return.\<close>

fun mapNormalize ::
    "platform \<Rightarrow> int \<Rightarrow> NormalizedNewsItem list \<Rightarrow> NormalizedNewsItem list option" where
  "mapNormalize pf now [] = Some []"
| "mapNormalize pf now (x # xs) =
     (case normalizeItem pf now (asPartial x) of
        None \<Rightarrow> None
      | Some y \<Rightarrow> map_option ((#) y) (mapNormalize pf now xs))"

text \<open>
  The fetch stage: the three families in turn, from no items and no errors. A
  \<open>TypeError\<close> that leaves a \<open>catch\<close> block ends the run there.
\<close>

definition fetchStage ::
    "environment \<Rightarrow> PipelineOptions
      \<Rightarrow> js_error + NormalizedNewsItem list \<times> PipelineError list" where
  "fetchStage env opts =
     (case fetchFamily env (useGdelt opts) ''GDELT''
             (gdeltFetchAll env (opt_categories opts)) ([], []) of
        Inl raised \<Rightarrow> Inl raised
      | Inr afterGdelt \<Rightarrow>
          (case fetchFamily env (useRss opts) ''RSS''
                  (rssFetchAll env (corsProxies opts) (opt_categories opts)) afterGdelt of
             Inl raised \<Rightarrow> Inl raised
           | Inr afterRss \<Rightarrow>
               fetchFamily env (useIntel opts) ''Intel''
                 (rssFetchIntel env (corsProxies opts)) afterRss))"

text \<open>
  The store stage: \<open>if (opts.storage) { try { await opts.storage.save(allItems) } catch
  (error) { errors.push({stage: 'store', message, timestamp}) } }\<close>.
\<close>

definition storeStage ::
    "environment \<Rightarrow> PipelineOptions \<Rightarrow> NormalizedNewsItem list \<Rightarrow> PipelineError list
      \<Rightarrow> js_error + PipelineError list" where
  "storeStage env opts allItems errs =
     (case storage opts of
        None \<Rightarrow> Inr errs
      | Some save \<Rightarrow>
          (case save allItems of
             None \<Rightarrow> Inr errs
           | Some error \<Rightarrow>
               (case catchError env Store None AtStoreError error of
                  Inl raised \<Rightarrow> Inl raised
                | Inr entry \<Rightarrow> Inr (errs @ [entry]))))"

text \<open>
  \<open>runPipeline\<close> (pipeline/index.ts, lines 138-261): fetch, parse, filter, deduplicate,
  sort, store. Nothing in \<open>normalizeItem\<close> throws, so the \<open>catch\<close> of the parse stage has
  no case here. The result is \<open>None\<close> when the run does not return, \<open>Some (Inl e)\<close> when
  the promise that it returns is rejected with \<open>e\<close>, and \<open>Some (Inr res)\<close> when the caller
  receives \<open>res\<close>.
\<close>

definition runPipeline ::
    "environment \<Rightarrow> PipelineOptions \<Rightarrow> (js_error + PipelineResult) option" where
  "runPipeline env opts =
     (let startTime = clock env AtStart
      in case fetchStage env opts of
           Inl raised \<Rightarrow> Some (Inl raised)
         | Inr got \<Rightarrow>
             (case mapNormalize (host env) (clock env AtParse) (fst got) of
                None \<Rightarrow> None
              | Some normalized \<Rightarrow>
                  (let kept = (if filterGiven (opt_filter opts)
                               then filterItems (host env) (clock env AtFilter) normalized
                                      (opt_filter opts)
                               else normalized);
                       unique = deduplicateItems kept;
                       sorted_items = sortItems (arraySort env) (host env) unique
                   in case storeStage env opts sorted_items (snd got) of
                        Inl raised \<Rightarrow> Some (Inl raised)
                      | Inr errs \<Rightarrow>
                          Some (Inr \<lparr>items = sorted_items,
                                     stats = \<lparr>fetched = length (fst got),
                                              parsed = length normalized,
                                              filtered = (if filterGiven (opt_filter opts)
                                                          then length normalized - length kept
                                                          else 0),
                                              deduplicated = length kept - length unique,
                                              duration_ms = clock env AtEnd - startTime\<rparr>,
                                     errors = errs\<rparr>))))"

section \<open>Examples\<close>

text \<open>
  After the fetch stage a GDELT article has gone through \<open>transformArticle\<close>, and the
  parse stage puts it through \<open>normalizeItem\<close>.
\<close>

definition enrichedArticle ::
    "platform \<Rightarrow> int \<Rightarrow> GdeltArticle \<Rightarrow> NewsCategory \<Rightarrow> nat \<Rightarrow> NormalizedNewsItem option" where
  "enrichedArticle pf now article cat index =
     normalizeItem pf now (asPartial (transformArticle pf now article cat index))"

text \<open>A record with an id, a title and a publication date, and nothing else.\<close>

definition sampleItem :: "string \<Rightarrow> string \<Rightarrow> string \<Rightarrow> NormalizedNewsItem" where
  "sampleItem i t d =
     \<lparr>item_id = i, source = [], url = [], title = t, published_at = d, fetched_at = d,
      authors = [], summary = [], content_text = [], tickers = [], topics = [],
      language = ''en'', metadata = emptyMetadata\<rparr>"

text \<open>A GDELT article with a title.\<close>

definition sampleArticle :: "string \<Rightarrow> GdeltArticle" where
  "sampleArticle t =
     \<lparr>g_title = t, g_url = ''https://example.com/article'', seendate = ''20240115T120000Z'',
      g_domain = ''example.com'', socialimage = None, g_language = None\<rparr>"

text \<open>The least number of code units that a match of a pattern consumes.\<close>

fun minLen :: "regex \<Rightarrow> nat" where
  "minLen (Class p) = 1"
| "minLen (Lit s) = length s"
| "minLen (LitI s) = length s"
| "minLen (Cat a b) = minLen a + minLen b"
| "minLen (Alt a b) = min (minLen a) (minLen b)"
| "minLen (Repeat p m n) = m"
| "minLen (Lookahead a) = 0"
| "minLen WordBoundary = 0"
| "minLen Start = 0"
| "minLen End = 0"

text \<open>The alert flag of a record that may be missing.\<close>

definition alertFlag :: "NormalizedNewsItem option \<Rightarrow> bool option" where
  "alertFlag r = (case r of None \<Rightarrow> None | Some x \<Rightarrow> is_alert (metadata x))"

text \<open>
  The sort key in the specification's words: the time value of \<open>published_at\<close>, an invalid
  date counted as the epoch.
\<close>

definition publishedTime :: "platform \<Rightarrow> NormalizedNewsItem \<Rightarrow> int" where
  "publishedTime pf x = (case dateParse pf (published_at x) of None \<Rightarrow> 0 | Some t \<Rightarrow> t)"

definition validDate :: "platform \<Rightarrow> NormalizedNewsItem \<Rightarrow> bool" where
  "validDate pf x = (dateParse pf (published_at x) \<noteq> None)"

text \<open>
  Positions in a string, for the statement of the summary rule: \<open>lastAt P s j\<close> says that
  \<open>j\<close> is the last position of \<open>s\<close> whose code unit satisfies \<open>P\<close>, \<open>noneIn P s\<close> that
  there is no such position.
\<close>

definition isTerminator :: "char \<Rightarrow> bool" where
  "isTerminator c = (c = CHR ''.'' \<or> c = CHR ''?'' \<or> c = CHR ''!'')"

definition isBlank :: "char \<Rightarrow> bool" where
  "isBlank c = (c = CHR '' '')"

definition lastAt :: "(char \<Rightarrow> bool) \<Rightarrow> string \<Rightarrow> nat \<Rightarrow> bool" where
  "lastAt P s j = (j < length s \<and> P (s ! j) \<and> list_all (\<lambda>c. \<not> P c) (drop (Suc j) s))"

definition noneIn :: "(char \<Rightarrow> bool) \<Rightarrow> string \<Rightarrow> bool" where
  "noneIn P s = list_all (\<lambda>c. \<not> P c) s"


text \<open>
  What a fetch adds to the records of a run: the list that it returns, and nothing when
  it is switched off or throws.
\<close>

definition fetchedBy ::
    "bool \<Rightarrow> thrown + NormalizedNewsItem list \<Rightarrow> NormalizedNewsItem list" where
  "fetchedBy enabled outcome =
     (case outcome of Inr fetchedItems \<Rightarrow> if enabled then fetchedItems else [] | Inl error \<Rightarrow> [])"

definition fetchedItems :: "environment \<Rightarrow> PipelineOptions \<Rightarrow> NormalizedNewsItem list" where
  "fetchedItems env opts =
     fetchedBy (useGdelt opts) (gdeltFetchAll env (opt_categories opts))
     @ fetchedBy (useRss opts) (rssFetchAll env (corsProxies opts) (opt_categories opts))
     @ fetchedBy (useIntel opts) (rssFetchIntel env (corsProxies opts))"







section \<open>Evaluation\<close>

text \<open>The definitions that the evaluation of closed examples unfolds.\<close>

lemmas char_defs =
  charCode_def isUpper_def isLower_def isDigit_def isSpace_def isWordChar_def isLetter_def
  lowerChar_def upperChar_def char_of_def bit_Suc_0_iff

lemmas clean_defs =
  cleanText_def stripHtml_def replaceAll_def replaceFrom.simps replaceFirst_def trim_def
  reTag_def reSpaces_def reContinueReading_def reReadMore_def skip_def

lemmas iso_defs =
  isoEngine_def isoParse_def isMatch_def reIsoDay_def reIsoSecondsZ_def utcTime_def
  daysInMonth_def daysFromCivil_def decimalValue_def skip_def Let_def

section \<open>Deduplication\<close>

lemma update_fresh_key:
  "k \<notin> fst ` set al \<Longrightarrow> AList.update k v al = al @ [(k, v)]"
  by (induction al) auto

lemma map_of_None_iff: "map_of al k = None \<longleftrightarrow> k \<notin> fst ` set al"
  by (simp add: map_of_eq_None_iff)

lemma dedup_loop_firstSeen:
  "map snd (seen (foldl dedupStep st xs)) =
     map snd (seen st) @ firstSeen (fst ` set (seen st)) (titleHashes st) xs"
proof (induction xs arbitrary: st)
  case Nil
  show ?case by simp
next
  case (Cons x xs)
  show ?case
  proof (cases "item_id x \<in> fst ` set (seen st) \<or> titleHash x \<in> titleHashes st")
    case True
    then have "dedupStep st x = st"
      by (auto simp: dedupStep_def map_of_None_iff)
    with True Cons.IH [of st] show ?thesis by auto
  next
    case False
    then have fresh: "item_id x \<notin> fst ` set (seen st)" and new: "titleHash x \<notin> titleHashes st"
      by auto
    let ?st' = "\<lparr>seen = seen st @ [(item_id x, x)],
                 titleHashes = insert (titleHash x) (titleHashes st)\<rparr>"
    from fresh new have step: "dedupStep st x = ?st'"
      by (simp add: dedupStep_def map_of_None_iff update_fresh_key)
    show ?thesis
      using False Cons.IH [of ?st'] by (simp add: step)
  qed
qed

lemma firstSeen_snoc:
  "firstSeen ids fps (xs @ [x]) =
     (if item_id x \<in> ids \<union> item_id ` set (firstSeen ids fps xs)
         \<or> titleHash x \<in> fps \<union> titleHash ` set (firstSeen ids fps xs)
      then firstSeen ids fps xs else firstSeen ids fps xs @ [x])"
proof (induction xs arbitrary: ids fps)
  case Nil
  show ?case by simp
next
  case (Cons y ys)
  show ?case
  proof (cases "item_id y \<in> ids \<or> titleHash y \<in> fps")
    case True
    with Cons.IH [of ids fps] show ?thesis by simp
  next
    case False
    with Cons.IH [of "insert (item_id y) ids" "insert (titleHash y) fps"] show ?thesis
      by simp
  qed
qed

lemma deduplicateItems_firstSeen: "deduplicateItems xs = firstSeen {} {} xs"
  using dedup_loop_firstSeen [of "\<lparr>seen = [], titleHashes = {}\<rparr>" xs]
  by (simp add: deduplicateItems_def)

text \<open>
  C3, as amended. Deduplication reads the records in input order and keeps a record iff
  neither its id nor its title fingerprint (the title lower-cased, stripped of
  everything but a-z and 0-9, then hashed) is that of a record kept earlier in the list
  (first-seen wins). Two records with the same id leave exactly one survivor, the first;
  so do two records with different ids whose normalized titles are equal; two records
  that differ in id and in fingerprint both survive.
\<close>

theorem deduplicateItems_first_seen_wins:
  "deduplicateItems [] = []
   \<and> deduplicateItems (xs @ [x]) =
       (if item_id x \<in> item_id ` set (deduplicateItems xs)
           \<or> titleHash x \<in> titleHash ` set (deduplicateItems xs)
        then deduplicateItems xs else deduplicateItems xs @ [x])
   \<and> deduplicateItems xs = firstSeen {} {} xs
   \<and> (item_id a = item_id b \<longrightarrow> deduplicateItems [a, b] = [a])
   \<and> (item_id a \<noteq> item_id b \<and> normalizedTitle (title a) = normalizedTitle (title b)
        \<longrightarrow> deduplicateItems [a, b] = [a])
   \<and> (item_id a \<noteq> item_id b \<and> titleHash a \<noteq> titleHash b
        \<longrightarrow> deduplicateItems [a, b] = [a, b])"
proof -
  have snoc: "deduplicateItems (xs @ [x]) =
       (if item_id x \<in> item_id ` set (deduplicateItems xs)
           \<or> titleHash x \<in> titleHash ` set (deduplicateItems xs)
        then deduplicateItems xs else deduplicateItems xs @ [x])"
    using firstSeen_snoc [of "{}" "{}" xs x] by (simp add: deduplicateItems_firstSeen)
  show ?thesis
    by (intro conjI) (simp_all only: snoc, simp_all add: deduplicateItems_firstSeen titleHash_def)
qed

lemma sample_fingerprints:
  "normalizedTitle ''Markets rally!'' = ''marketsrally''"
  "normalizedTitle ''MARKETS: rally'' = ''marketsrally''"
  "normalizedTitle ''Rates rise'' = ''ratesrise''"
  by (simp_all add: normalizedTitle_def toLowerCase_def char_defs)

theorem deduplicateItems_first_seen_wins_witness:
  "deduplicateItems
     [sampleItem ''a1'' ''Markets rally!'' ''2024-01-01'',
      sampleItem ''a1'' ''Rates rise'' ''2024-01-02''] =
     [sampleItem ''a1'' ''Markets rally!'' ''2024-01-01'']
   \<and> deduplicateItems
     [sampleItem ''a1'' ''Markets rally!'' ''2024-01-01'',
      sampleItem ''b2'' ''MARKETS: rally'' ''2024-01-02''] =
     [sampleItem ''a1'' ''Markets rally!'' ''2024-01-01'']
   \<and> deduplicateItems
     [sampleItem ''a1'' ''Markets rally!'' ''2024-01-01'',
      sampleItem ''b2'' ''Rates rise'' ''2024-01-02''] =
     [sampleItem ''a1'' ''Markets rally!'' ''2024-01-01'',
      sampleItem ''b2'' ''Rates rise'' ''2024-01-02'']
   \<and> titleHash (sampleItem ''a1'' ''Markets rally!'' ''2024-01-01'') = ''dq0etv''
   \<and> titleHash (sampleItem ''b2'' ''Rates rise'' ''2024-01-02'') = ''3vwqfw''"
proof -
  have hashes:
    "titleHash (sampleItem ''a1'' ''Markets rally!'' ''2024-01-01'') = ''dq0etv''"
    "titleHash (sampleItem ''b2'' ''Rates rise'' ''2024-01-02'') = ''3vwqfw''"
    by (simp_all add: titleHash_def sampleItem_def sample_fingerprints hashCode_def hashLoop_def
        hashStep_def charCode_def radix36.simps digit36_def)
  have same_id: "deduplicateItems
     [sampleItem ''a1'' ''Markets rally!'' ''2024-01-01'',
      sampleItem ''a1'' ''Rates rise'' ''2024-01-02''] =
     [sampleItem ''a1'' ''Markets rally!'' ''2024-01-01'']"
    using deduplicateItems_first_seen_wins
      [of "[]" "sampleItem ''a1'' ''Markets rally!'' ''2024-01-01''"
          "sampleItem ''a1'' ''Markets rally!'' ''2024-01-01''"
          "sampleItem ''a1'' ''Rates rise'' ''2024-01-02''"]
    by (simp add: sampleItem_def)
  have same_title: "deduplicateItems
     [sampleItem ''a1'' ''Markets rally!'' ''2024-01-01'',
      sampleItem ''b2'' ''MARKETS: rally'' ''2024-01-02''] =
     [sampleItem ''a1'' ''Markets rally!'' ''2024-01-01'']"
    using deduplicateItems_first_seen_wins
      [of "[]" "sampleItem ''a1'' ''Markets rally!'' ''2024-01-01''"
          "sampleItem ''a1'' ''Markets rally!'' ''2024-01-01''"
          "sampleItem ''b2'' ''MARKETS: rally'' ''2024-01-02''"]
    by (simp add: sampleItem_def sample_fingerprints)
  have both: "deduplicateItems
     [sampleItem ''a1'' ''Markets rally!'' ''2024-01-01'',
      sampleItem ''b2'' ''Rates rise'' ''2024-01-02''] =
     [sampleItem ''a1'' ''Markets rally!'' ''2024-01-01'',
      sampleItem ''b2'' ''Rates rise'' ''2024-01-02'']"
    using deduplicateItems_first_seen_wins
      [of "[]" "sampleItem ''a1'' ''Markets rally!'' ''2024-01-01''"
          "sampleItem ''a1'' ''Markets rally!'' ''2024-01-01''"
          "sampleItem ''b2'' ''Rates rise'' ''2024-01-02''"]
      hashes
    by (simp add: sampleItem_def)
  from same_id same_title both hashes show ?thesis
    by (intro conjI)
qed

text \<open>
  The claim as it was stated drops a record whose id was seen earlier in the list. A
  record that is dropped leaves no trace: the second record here is dropped for its
  title, so its id \<open>b\<close> is not in the map, and the third record is kept although the id
  \<open>b\<close> was seen before it.
\<close>

theorem deduplicateItems_keeps_seen_id:
  "deduplicateItems
     [sampleItem ''a'' ''A'' ''2024-01-01'', sampleItem ''b'' ''A'' ''2024-01-02'',
      sampleItem ''b'' ''B'' ''2024-01-03'']
   = [sampleItem ''a'' ''A'' ''2024-01-01'', sampleItem ''b'' ''B'' ''2024-01-03'']
   \<and> item_id (sampleItem ''b'' ''B'' ''2024-01-03'') = item_id (sampleItem ''b'' ''A'' ''2024-01-02'')"
proof -
  have hashes: "hashCode ''a'' = ''2p''" "hashCode ''b'' = ''2q''"
    by (simp_all add: hashCode_def hashLoop_def hashStep_def charCode_def radix36.simps
        digit36_def)
  have titles: "normalizedTitle ''A'' = ''a''" "normalizedTitle ''B'' = ''b''"
    by (simp_all add: normalizedTitle_def toLowerCase_def char_defs)
  show ?thesis
    by (simp add: deduplicateItems_def dedupStep_def titleHash_def sampleItem_def titles hashes)
qed

section \<open>Identity\<close>

text \<open>
  The loop of \<open>hashCode\<close> computes the polynomial hash with base 31 modulo \<open>2^32\<close>, so the
  id is fixed by the code units of the two strings, whatever the language that computes
  it.
\<close>

lemma hashStep_31: "hashStep h c = 31 * h + of_nat (charCode c)"
  by (simp add: hashStep_def push_bit_eq_mult)

lemma hashLoop_polynomial:
  "foldl hashStep h str = word_of_nat (foldl (\<lambda>a c. 31 * a + charCode c) (unat h) str)"
proof (induction str arbitrary: h)
  case Nil
  show ?case by simp
next
  case (Cons c cs)
  have "word_of_nat (foldl (\<lambda>a c. 31 * a + charCode c) n cs)
      = (word_of_nat (foldl (\<lambda>a c. 31 * a + charCode c) m cs) :: 32 word)"
    if "(word_of_nat n :: 32 word) = word_of_nat m" for n m
    using that
  proof (induction cs arbitrary: n m)
    case Nil
    then show ?case by simp
  next
    case (Cons d ds)
    have "(word_of_nat (31 * n + charCode d) :: 32 word) = word_of_nat (31 * m + charCode d)"
      using Cons.prems by simp
    then show ?case using Cons.IH by simp
  qed
  note same = this
  have "foldl hashStep h (c # cs) = foldl hashStep (hashStep h c) cs"
    by simp
  also have "\<dots> = word_of_nat (foldl (\<lambda>a c. 31 * a + charCode c) (unat (hashStep h c)) cs)"
    by (rule Cons.IH)
  also have "\<dots> = word_of_nat (foldl (\<lambda>a c. 31 * a + charCode c) (31 * unat h + charCode c) cs)"
    by (rule same) (simp add: hashStep_31)
  finally show ?case by simp
qed

lemma transformArticle_id:
  "item_id (transformArticle pf now article cat index)
     = generateId (g_url article) (''gdelt-'' @ categoryName cat)"
  by (simp add: transformArticle_def Let_def)

text \<open>
  C4. The generated id is a function of the pair of url and source alone: two
  evaluations of \<open>generateId\<close> on equal inputs return the same string. The function reads
  no clock, no counter and no state: the id that the GDELT connector gives an article is
  the same under another clock, another engine and another position in the response.
\<close>

theorem generateId_deterministic:
  "(url1 = url2 \<and> source1 = source2 \<longrightarrow> generateId url1 source1 = generateId url2 source2)
   \<and> (g_url a = g_url b
        \<longrightarrow> item_id (transformArticle pf1 now1 a cat i) = item_id (transformArticle pf2 now2 b cat j))"
  by (simp add: transformArticle_id)

theorem generateId_deterministic_witness:
  "generateId (''https://example.com/'' @ ''article1'') (''gdelt-'' @ categoryName intel)
     = generateId ''https://example.com/article1'' ''gdelt-intel''
   \<and> item_id (transformArticle isoEngine 0 (sampleArticle ''Markets rally'') intel 0)
     = item_id (transformArticle \<lparr>dateParse = (\<lambda>s. None), urlHostname = (\<lambda>u. None)\<rparr>
         1700000000123 (sampleArticle ''Rates rise'') intel 7)"
proof -
  have "generateId (''https://example.com/'' @ ''article1'') (''gdelt-'' @ categoryName intel)
     = generateId ''https://example.com/article1'' ''gdelt-intel''"
    using generateId_deterministic
      [of "''https://example.com/'' @ ''article1''" "''https://example.com/article1''"
          "''gdelt-'' @ categoryName intel" "''gdelt-intel''"]
    by simp
  moreover have
    "item_id (transformArticle isoEngine 0 (sampleArticle ''Markets rally'') intel 0)
     = item_id (transformArticle \<lparr>dateParse = (\<lambda>s. None), urlHostname = (\<lambda>u. None)\<rparr>
         1700000000123 (sampleArticle ''Rates rise'') intel 7)"
    using generateId_deterministic
      [where a = "sampleArticle ''Markets rally''" and b = "sampleArticle ''Rates rise''"
         and ?pf1.0 = isoEngine and ?now1.0 = 0 and cat = intel and i = 0
         and ?pf2.0 = "\<lparr>dateParse = (\<lambda>s. None), urlHostname = (\<lambda>u. None)\<rparr>"
         and ?now2.0 = 1700000000123 and j = 7]
    by (simp add: sampleArticle_def)
  ultimately show ?thesis by simp
qed

section \<open>Matching consumes input\<close>

lemma startsWith_length: "startsWith s k \<Longrightarrow> length k \<le> length s"
  by (induction s k rule: startsWith.induct) auto

lemma startsWithI_length: "startsWithI s k \<Longrightarrow> length k \<le> length s"
  by (induction s k rule: startsWithI.induct) auto

lemma skip_length: "length (snd (skip n cur)) = length (snd cur) - n"
  by (simp add: skip_def)

lemma advance_consumes:
  "e \<in> set (drop m (advance p n (prev, rest))) \<Longrightarrow> length (snd e) + m \<le> length rest"
proof (induction rest arbitrary: prev n m)
  case Nil
  then show ?case by (cases m) auto
next
  case (Cons c cs)
  show ?case
  proof (cases m)
    case 0
    with Cons.prems have "e = (prev, c # cs) \<or>
        (p c \<and> n \<noteq> Some 0 \<and> e \<in> set (drop 0 (advance p (map_option (\<lambda>k. k - 1) n) (Some c, cs))))"
      by (auto split: if_splits)
    then show ?thesis
      using Cons.IH [of 0 "map_option (\<lambda>k. k - 1) n" "Some c"] 0 by auto
  next
    case (Suc m')
    with Cons.prems have
      "e \<in> set (drop m' (advance p (map_option (\<lambda>k. k - 1) n) (Some c, cs)))"
      by (auto split: if_splits)
    then show ?thesis
      using Cons.IH [of m' "map_option (\<lambda>k. k - 1) n" "Some c"] Suc by auto
  qed
qed

lemma matches_consumes:
  "e \<in> set (matches r cur) \<Longrightarrow> length (snd e) + minLen r \<le> length (snd cur)"
proof (induction r arbitrary: cur e)
  case (Class p)
  then show ?case by (cases "snd cur") (auto split: if_splits)
next
  case (Lit s)
  then show ?case
    using startsWith_length [of "snd cur" s] by (auto simp: skip_length split: if_splits)
next
  case (LitI s)
  then show ?case
    using startsWithI_length [of "snd cur" s] by (auto simp: skip_length split: if_splits)
next
  case (Cat a b)
  from Cat.prems obtain m where m: "m \<in> set (matches a cur)" and e: "e \<in> set (matches b m)"
    by auto
  from Cat.IH(1) [OF m] Cat.IH(2) [OF e] show ?case by simp
next
  case (Alt a b)
  then show ?case by fastforce
next
  case (Repeat p m n)
  then show ?case
    using advance_consumes [of e m p n "fst cur" "snd cur"] by simp
next
  case (Lookahead a)
  then show ?case by (auto split: if_splits)
next
  case WordBoundary
  then show ?case by (auto split: if_splits)
next
  case Start
  then show ?case by (auto split: if_splits)
next
  case End
  then show ?case by (auto split: if_splits)
qed

lemma search_result:
  "search r cur = Some (b, e) \<Longrightarrow> length (snd b) \<le> length (snd cur) \<and> e \<in> set (matches r b)"
proof (induction r cur rule: search.induct)
  case (1 r prev)
  then show ?case by (auto split: list.splits)
next
  case (2 r prev c cs)
  show ?case
  proof (cases "matches r (prev, c # cs)")
    case Nil
    with 2 show ?thesis by auto
  next
    case (Cons x xs)
    with 2 show ?thesis by auto
  qed
qed

lemma search_consumes:
  assumes "search r cur = Some (b, e)"
  shows "length (snd e) + minLen r \<le> length (snd cur)"
  using search_result [OF assms] matches_consumes [of e r b] by simp

lemma execAll_returns:
  "0 < minLen r \<Longrightarrow> \<exists>ms. execAll r cur = Some ms"
proof (induction r cur rule: execAll.induct)
  case (1 r cur)
  show ?case
  proof (cases "search r cur")
    case None
    then show ?thesis by (subst execAll.simps) simp
  next
    case (Some be)
    obtain b e where be: "be = (b, e)" by (cases be)
    from search_consumes [of r cur b e] Some be "1.prems"
    have less: "length (snd e) < length (snd cur)" by simp
    from "1.IH" [OF Some [unfolded be] refl less "1.prems"]
    obtain ms where "execAll r e = Some ms" by blast
    with Some be less show ?thesis by (subst execAll.simps) simp
  qed
qed

lemma ticker_patterns_consume:
  "0 < minLen reDollarSymbol" "0 < minLen reBareToken" "0 < minLen reCryptoSymbol"
  by (simp_all add: reDollarSymbol_def reBareToken_def reCryptoSymbol_def)

lemma extractTickers_returns: "\<exists>found. extractTickers text = Some found"
proof -
  obtain m1 where m1: "execAll reDollarSymbol (None, text) = Some m1"
    using execAll_returns [OF ticker_patterns_consume(1)] by blast
  obtain m2 where m2: "execAll reBareToken (None, text) = Some m2"
    using execAll_returns [OF ticker_patterns_consume(2)] by blast
  obtain m3 where m3: "execAll reCryptoSymbol (None, text) = Some m3"
    using execAll_returns [OF ticker_patterns_consume(3)] by blast
  show ?thesis
    by (simp add: extractTickers_def TICKER_PATTERNS_def addMatches_def m1 m2 m3)
qed

section \<open>The two GDELT articles\<close>

lemma cleanText_empty: "cleanText [] = []"
  by (simp add: cleanText_def)

lemma cyber_lower:
  "toLowerCase ''Cyber attack on military base'' = ''cyber attack on military base''"
  by (simp add: toLowerCase_def char_defs)

lemma cyber_topics:
  "detectTopics ''Cyber attack on military base'' = [''CYBER'', ''CONFLICT'', ''DEFENSE'']"
  by (simp add: detectTopics_def TOPIC_KEYWORDS_def cyber_lower)

lemma cyber_alert:
  "containsAlertKeyword ''Cyber attack on military base''
     = \<lparr>alert = True, keyword = Some ''military''\<rparr>"
  by (simp add: containsAlertKeyword_def ALERT_KEYWORDS_def cyber_lower)

lemma routine_lower:
  "toLowerCase ''Routine earnings report'' = ''routine earnings report''"
  by (simp add: toLowerCase_def char_defs)

lemma routine_full_lower:
  "toLowerCase ''Routine earnings report  '' = ''routine earnings report  ''"
  by (simp add: toLowerCase_def char_defs)

lemma routine_topics: "detectTopics ''Routine earnings report'' = []"
  by (simp add: detectTopics_def TOPIC_KEYWORDS_def routine_lower)

lemma routine_full_topics: "detectTopics ''Routine earnings report  '' = []"
  by (simp add: detectTopics_def TOPIC_KEYWORDS_def routine_full_lower)

lemma routine_clean: "cleanText ''Routine earnings report'' = ''Routine earnings report''"
  by (simp add: clean_defs char_defs)

lemma transformArticle_topics:
  "topics (transformArticle pf now article cat index) = detectTopics (g_title article)"
  by (simp add: transformArticle_def Let_def orElse_def)

lemma transformArticle_alert:
  "is_alert (metadata (transformArticle pf now article cat index))
     = Some (alert (containsAlertKeyword (g_title article)))"
  "alert_keyword (metadata (transformArticle pf now article cat index))
     = keyword (containsAlertKeyword (g_title article))"
  by (simp_all add: transformArticle_def Let_def orElse_def)

lemma transformArticle_text:
  "title (transformArticle pf now article cat index) = g_title article"
  "summary (transformArticle pf now article cat index) = []"
  "content_text (transformArticle pf now article cat index) = []"
  "tickers (transformArticle pf now article cat index) = []"
  by (simp_all add: transformArticle_def Let_def orElse_def)

text \<open>What \<open>normalizeItem\<close> keeps and what it derives, for a complete record.\<close>

lemma normalizeItem_complete:
  assumes "extractTickers (cleanText (title x) @ '' '' @ cleanText (summary x) @ '' ''
             @ cleanText (content_text x)) = Some found"
  shows "\<exists>r. normalizeItem pf now (asPartial x) = Some r
    \<and> topics r = (if topics x = []
         then detectTopics (cleanText (title x) @ '' '' @ cleanText (summary x) @ '' ''
                @ cleanText (content_text x))
         else topics x)
    \<and> is_alert (metadata r)
         = (case is_alert (metadata x) of
              Some b \<Rightarrow> Some b
            | None \<Rightarrow> Some (alert (containsAlertKeyword (cleanText (title x)))))
    \<and> alert_keyword (metadata r)
         = (case is_alert (metadata x) of
              Some b \<Rightarrow> alert_keyword (metadata x)
            | None \<Rightarrow> keyword (containsAlertKeyword (cleanText (title x))))"
proof -
  have clean: "cleanText (orDefault (Some s) []) = cleanText s"
    "cleanIfSet (Some s) = cleanText s" for s
    by (simp_all add: orDefault_def orElse_def cleanIfSet_def cleanText_def)
  show ?thesis
    using assms
    by (cases "is_alert (metadata x)")
       (simp_all add: normalizeItem_def itemFullText_def asPartial_def Let_def clean
          nonEmptyOr_def metaAlert_def metaAlertKeyword_def split: option.splits)
qed

lemma enrichedArticle_result:
  "\<exists>r. enrichedArticle pf now a cat i = Some r
    \<and> topics r = (if detectTopics (g_title a) = []
         then detectTopics (cleanText (g_title a) @ ''  '') else detectTopics (g_title a))
    \<and> is_alert (metadata r) = Some (alert (containsAlertKeyword (g_title a)))
    \<and> alert_keyword (metadata r) = keyword (containsAlertKeyword (g_title a))"
proof -
  let ?x = "transformArticle pf now a cat i"
  obtain f where "extractTickers (cleanText (title ?x) @ '' '' @ cleanText (summary ?x)
      @ '' '' @ cleanText (content_text ?x)) = Some f"
    using extractTickers_returns by blast
  from normalizeItem_complete [OF this, of pf now]
  show ?thesis
    by (auto simp: enrichedArticle_def transformArticle_topics transformArticle_alert
        transformArticle_text cleanText_empty)
qed

text \<open>
  C1, as amended. For a GDELT response with two articles titled "Cyber attack on military
  base" and "Routine earnings report", after enrichment the topics of the first record
  include CYBER and DEFENSE and its \<open>metadata.is_alert\<close> is true, with the alert keyword
  "military" (the title holds the alert keywords "military" and "attack"); the topics of
  the second record are empty.
\<close>

theorem enriched_gdelt_articles:
  assumes "g_title a1 = ''Cyber attack on military base''"
    and "g_title a2 = ''Routine earnings report''"
  shows "\<exists>r1 r2. enrichedArticle pf now a1 cat1 i1 = Some r1
    \<and> enrichedArticle pf now a2 cat2 i2 = Some r2
    \<and> ''CYBER'' \<in> set (topics r1) \<and> ''DEFENSE'' \<in> set (topics r1)
    \<and> is_alert (metadata r1) = Some True
    \<and> alert_keyword (metadata r1) = Some ''military''
    \<and> topics r2 = []"
proof -
  obtain r1 where r1: "enrichedArticle pf now a1 cat1 i1 = Some r1"
    and t1: "topics r1 = [''CYBER'', ''CONFLICT'', ''DEFENSE'']"
    and a1: "is_alert (metadata r1) = Some True"
    and k1: "alert_keyword (metadata r1) = Some ''military''"
    using enrichedArticle_result [of pf now a1 cat1 i1] assms(1)
    by (auto simp: cyber_topics cyber_alert)
  obtain r2 where r2: "enrichedArticle pf now a2 cat2 i2 = Some r2"
    and t2: "topics r2 = []"
    using enrichedArticle_result [of pf now a2 cat2 i2] assms(2)
    by (auto simp: routine_topics routine_clean routine_full_topics)
  show ?thesis
    using r1 t1 a1 k1 r2 t2 by simp
qed

theorem enriched_gdelt_articles_witness:
  "\<exists>r1 r2. enrichedArticle isoEngine 0 (sampleArticle ''Cyber attack on military base'') intel 0
       = Some r1
    \<and> enrichedArticle isoEngine 0 (sampleArticle ''Routine earnings report'') intel 1 = Some r2
    \<and> ''CYBER'' \<in> set (topics r1) \<and> ''DEFENSE'' \<in> set (topics r1)
    \<and> is_alert (metadata r1) = Some True
    \<and> alert_keyword (metadata r1) = Some ''military''
    \<and> topics r2 = []"
  by (rule enriched_gdelt_articles) (simp_all add: sampleArticle_def)

text \<open>
  The claim as it was stated asks for \<open>metadata.is_alert = false\<close> on the first record.
  The flag is true, out of \<open>transformArticle\<close> and after \<open>normalizeItem\<close>.
\<close>

theorem enriched_cyber_article_is_alert:
  "is_alert (metadata (transformArticle isoEngine 0
      (sampleArticle ''Cyber attack on military base'') intel 0)) = Some True
   \<and> alertFlag (enrichedArticle isoEngine 0
      (sampleArticle ''Cyber attack on military base'') intel 0) = Some True"
proof -
  obtain r where
    "enrichedArticle isoEngine 0 (sampleArticle ''Cyber attack on military base'') intel 0 = Some r"
    "is_alert (metadata r) = Some True"
    using enrichedArticle_result
      [of isoEngine 0 "sampleArticle ''Cyber attack on military base''" intel 0]
    by (auto simp: sampleArticle_def cyber_alert)
  then show ?thesis
    by (simp add: alertFlag_def transformArticle_alert sampleArticle_def cyber_alert)
qed

section \<open>Sorting\<close>

text \<open>
  The sample engine's sort obeys the contract: on a consistent comparator the run that
  \<open>countAndMakeRun\<close> leaves at the start is the stable sort of that prefix, and each
  binary insertion extends the stable sort by one element.
\<close>

lemma consistentOn_less:
  "consistentOn cmp k A \<Longrightarrow> a \<in> A \<Longrightarrow> b \<in> A \<Longrightarrow> (cmp a b < 0) = (k a < k b)"
proof -
  assume "consistentOn cmp k A" "a \<in> A" "b \<in> A"
  then have "sgn (cmp a b) = sgn (k a - k b)" by (simp add: consistentOn_def)
  then have "(sgn (cmp a b) < 0) = (sgn (k a - k b) < 0)" by simp
  then show ?thesis by (simp only: sgn_less) simp
qed

lemma consistentOn_subset: "consistentOn cmp k A \<Longrightarrow> B \<subseteq> A \<Longrightarrow> consistentOn cmp k B"
  by (auto simp: consistentOn_def)

lemma binarySearch_bounds:
  assumes "sorted (map k S)"
    and "\<And>e. e \<in> set S \<Longrightarrow> (cmp p e < 0) = (k p < k e)"
    and "left \<le> right" "right \<le> length S"
    and "\<forall>i<left. k (S ! i) \<le> k p"
    and "\<forall>i. right \<le> i \<and> i < length S \<longrightarrow> k p < k (S ! i)"
  shows "binarySearch cmp S p left right \<le> length S
    \<and> (\<forall>i<binarySearch cmp S p left right. k (S ! i) \<le> k p)
    \<and> (\<forall>i. binarySearch cmp S p left right \<le> i \<and> i < length S \<longrightarrow> k p < k (S ! i))"
  using assms
proof (induction cmp S p left right rule: binarySearch.induct)
  case (1 cmp work pivot left right)
  let ?mid = "left + (right - left) div 2"
  show ?case
  proof (cases "left < right")
    case False
    then have "binarySearch cmp work pivot left right = left"
      by (subst binarySearch.simps) simp
    with False 1(3-) show ?thesis
      by simp
  next
    case True
    then have mid: "left \<le> ?mid" "?mid < right" by auto
    with 1(6) have midlen: "?mid < length work" by simp
    then have mem: "work ! ?mid \<in> set work" by simp
    have srt: "k (work ! i) \<le> k (work ! j)" if "i \<le> j" "j < length work" for i j
      using 1(3) that by (simp add: sorted_iff_nth_mono)
    show ?thesis
    proof (cases "cmp pivot (work ! ?mid) < 0")
      case lt: True
      then have klt: "k pivot < k (work ! ?mid)" using 1(4) [OF mem] by simp
      have upper: "\<forall>i. ?mid \<le> i \<and> i < length work \<longrightarrow> k pivot < k (work ! i)"
      proof (intro allI impI)
        fix i assume "?mid \<le> i \<and> i < length work"
        then have "k (work ! ?mid) \<le> k (work ! i)" using srt by simp
        with klt show "k pivot < k (work ! i)" by simp
      qed
      have "binarySearch cmp work pivot left ?mid \<le> length work
        \<and> (\<forall>i<binarySearch cmp work pivot left ?mid. k (work ! i) \<le> k pivot)
        \<and> (\<forall>i. binarySearch cmp work pivot left ?mid \<le> i \<and> i < length work
              \<longrightarrow> k pivot < k (work ! i))"
        using 1(1) [OF True lt 1(3) 1(4)] mid midlen 1(7) upper by simp
      moreover have "binarySearch cmp work pivot left right
          = binarySearch cmp work pivot left ?mid"
        using True lt by (subst binarySearch.simps) simp
      ultimately show ?thesis
        by simp
    next
      case ge: False
      then have kge: "k (work ! ?mid) \<le> k pivot" using 1(4) [OF mem] by simp
      have lower: "\<forall>i<?mid + 1. k (work ! i) \<le> k pivot"
      proof (intro allI impI)
        fix i assume "i < ?mid + 1"
        then have "k (work ! i) \<le> k (work ! ?mid)" using srt midlen by simp
        with kge show "k (work ! i) \<le> k pivot" by simp
      qed
      have "binarySearch cmp work pivot (?mid + 1) right \<le> length work
        \<and> (\<forall>i<binarySearch cmp work pivot (?mid + 1) right. k (work ! i) \<le> k pivot)
        \<and> (\<forall>i. binarySearch cmp work pivot (?mid + 1) right \<le> i \<and> i < length work
              \<longrightarrow> k pivot < k (work ! i))"
        using 1(2) [OF True ge 1(3) 1(4)] mid 1(6) 1(8) lower by simp
      moreover have "binarySearch cmp work pivot left right
          = binarySearch cmp work pivot (?mid + 1) right"
        using True ge by (subst binarySearch.simps) simp
      ultimately show ?thesis
        by simp
    qed
  qed
qed

lemma split_at_bound:
  assumes "l \<le> length S"
    and "\<forall>i<l. k (S ! i) \<le> (c::int)"
    and "\<forall>i. l \<le> i \<and> i < length S \<longrightarrow> c < k (S ! i)"
  shows "take l S = filter (\<lambda>x. k x \<le> c) S \<and> drop l S = filter (\<lambda>x. c < k x) S"
proof -
  have a: "\<forall>x\<in>set (take l S). k x \<le> c"
    using assms(1,2) by (auto simp: in_set_conv_nth)
  have b: "\<forall>x\<in>set (drop l S). c < k x"
    using assms(1,3) by (auto simp: in_set_conv_nth)
  have "filter (\<lambda>x. k x \<le> c) S = filter (\<lambda>x. k x \<le> c) (take l S) @ filter (\<lambda>x. k x \<le> c) (drop l S)"
    by (metis append_take_drop_id filter_append)
  also have "filter (\<lambda>x. k x \<le> c) (take l S) = take l S"
    using a by (simp add: filter_id_conv)
  also have "filter (\<lambda>x. k x \<le> c) (drop l S) = []"
    using b by (auto simp: filter_empty_conv)
  finally have 1: "take l S = filter (\<lambda>x. k x \<le> c) S" by simp
  have "filter (\<lambda>x. c < k x) S = filter (\<lambda>x. c < k x) (take l S) @ filter (\<lambda>x. c < k x) (drop l S)"
    by (metis append_take_drop_id filter_append)
  also have "filter (\<lambda>x. c < k x) (take l S) = []"
    using a by (auto simp: filter_empty_conv)
  also have "filter (\<lambda>x. c < k x) (drop l S) = drop l S"
    using b by (simp add: filter_id_conv)
  finally have 2: "drop l S = filter (\<lambda>x. c < k x) S" by simp
  from 1 2 show ?thesis by simp
qed

lemma sort_key_snoc:
  fixes k :: "'a \<Rightarrow> int"
  shows "sort_key k (pre @ [p])
    = filter (\<lambda>x. k x \<le> k p) (sort_key k pre) @ p # filter (\<lambda>x. k p < k x) (sort_key k pre)"
proof (rule properties_for_sort_key)
  let ?S = "sort_key k pre"
  let ?ys = "filter (\<lambda>x. k x \<le> k p) ?S @ p # filter (\<lambda>x. k p < k x) ?S"
  have "mset (filter (\<lambda>x. k x \<le> k p) ?S) + mset (filter (\<lambda>x. k p < k x) ?S) = mset ?S"
    by (simp add: not_le [symmetric])
  then show "mset ?ys = mset (pre @ [p])"
    by simp
  show "sorted (map k ?ys)"
    by (auto simp: sorted_append sorted_map sorted_wrt_filter
        intro!: sorted_wrt_filter sorted_wrt_mono_rel [OF _ sorted_sort_key [of k pre, unfolded sorted_map]])
  fix j assume "j \<in> set ?ys"
  have stable: "filter (\<lambda>x. k j = k x) ?S = filter (\<lambda>x. k j = k x) pre"
    using sort_key_stable [of k "k j" pre] by (simp add: eq_commute)
  consider "k j = k p" | "k j < k p" | "k p < k j" by linarith
  then show "filter (\<lambda>x. k j = k x) ?ys = filter (\<lambda>x. k j = k x) (pre @ [p])"
  proof cases
    case 1
    have "filter (\<lambda>x. k j = k x \<and> k x \<le> k p) ?S = filter (\<lambda>x. k j = k x) ?S"
      by (rule filter_cong) (auto simp: 1)
    moreover have "filter (\<lambda>x. k j = k x \<and> k p < k x) ?S = []"
      by (auto simp: filter_empty_conv 1)
    ultimately show ?thesis using 1 stable by (simp add: conj_commute)
  next
    case 2
    have "filter (\<lambda>x. k j = k x \<and> k x \<le> k p) ?S = filter (\<lambda>x. k j = k x) ?S"
      by (rule filter_cong) (use 2 in auto)
    moreover have "filter (\<lambda>x. k j = k x \<and> k p < k x) ?S = []"
      using 2 by (auto simp: filter_empty_conv)
    ultimately show ?thesis using 2 stable by (simp add: conj_commute)
  next
    case 3
    have "filter (\<lambda>x. k j = k x \<and> k p < k x) ?S = filter (\<lambda>x. k j = k x) ?S"
      by (rule filter_cong) (use 3 in auto)
    moreover have "filter (\<lambda>x. k j = k x \<and> k x \<le> k p) ?S = []"
      using 3 by (auto simp: filter_empty_conv)
    ultimately show ?thesis using 3 stable by (simp add: conj_commute)
  qed
qed

lemma binaryInsert_sort_key:
  fixes k :: "'a \<Rightarrow> int"
  assumes "consistentOn cmp k (insert p (set pre))"
  shows "binaryInsert cmp (sort_key k pre) p = sort_key k (pre @ [p])"
proof -
  let ?S = "sort_key k pre"
  let ?l = "binarySearch cmp ?S p 0 (length ?S)"
  have cons: "(cmp p e < 0) = (k p < k e)" if "e \<in> set ?S" for e
    using consistentOn_less [OF assms, of p e] that by simp
  have "?l \<le> length ?S \<and> (\<forall>i<?l. k (?S ! i) \<le> k p)
      \<and> (\<forall>i. ?l \<le> i \<and> i < length ?S \<longrightarrow> k p < k (?S ! i))"
    by (rule binarySearch_bounds [where k = k]) (use cons in auto)
  then have "take ?l ?S = filter (\<lambda>x. k x \<le> k p) ?S \<and> drop ?l ?S = filter (\<lambda>x. k p < k x) ?S"
    by (intro split_at_bound) auto
  then show ?thesis
    by (simp add: binaryInsert_def Let_def sort_key_snoc)
qed

lemma binaryInsertionSort_sort_key:
  fixes k :: "'a \<Rightarrow> int"
  shows "consistentOn cmp k (set pre \<union> set rest) \<Longrightarrow>
    foldl (binaryInsert cmp) (sort_key k pre) rest = sort_key k (pre @ rest)"
proof (induction rest arbitrary: pre)
  case Nil
  show ?case by simp
next
  case (Cons p rest)
  have "consistentOn cmp k (insert p (set pre))"
    by (rule consistentOn_subset [OF Cons.prems]) auto
  then have step: "binaryInsert cmp (sort_key k pre) p = sort_key k (pre @ [p])"
    by (rule binaryInsert_sort_key)
  have "consistentOn cmp k (set (pre @ [p]) \<union> set rest)"
    by (rule consistentOn_subset [OF Cons.prems]) auto
  from Cons.IH [OF this] show ?case
    by (simp add: step)
qed

lemma runTail_ascending:
  fixes k :: "'a \<Rightarrow> int"
  shows "consistentOn cmp k (insert prev (set rest)) \<Longrightarrow>
    runTail cmp False prev rest \<le> length rest
    \<and> sorted (map k (prev # take (runTail cmp False prev rest) rest))"
proof (induction rest arbitrary: prev)
  case Nil
  show ?case by simp
next
  case (Cons cur rest)
  have less: "(cmp cur prev < 0) = (k cur < k prev)"
    by (rule consistentOn_less [OF Cons.prems]) auto
  have "consistentOn cmp k (insert cur (set rest))"
    by (rule consistentOn_subset [OF Cons.prems]) auto
  from Cons.IH [OF this] show ?case
    using less by auto
qed

lemma runTail_descending:
  fixes k :: "'a \<Rightarrow> int"
  shows "consistentOn cmp k (insert prev (set rest)) \<Longrightarrow>
    runTail cmp True prev rest \<le> length rest
    \<and> sorted_wrt (\<lambda>a b. k b < k a) (prev # take (runTail cmp True prev rest) rest)"
proof (induction rest arbitrary: prev)
  case Nil
  show ?case by simp
next
  case (Cons cur rest)
  have less: "(cmp cur prev < 0) = (k cur < k prev)"
    by (rule consistentOn_less [OF Cons.prems]) auto
  have "consistentOn cmp k (insert cur (set rest))"
    by (rule consistentOn_subset [OF Cons.prems]) auto
  from Cons.IH [OF this] show ?case
    using less by (auto simp: not_le)
qed

lemma strictly_descending_filter:
  fixes k :: "'a \<Rightarrow> int"
  shows "sorted_wrt (\<lambda>a b. k b < k a) ys \<Longrightarrow> length (filter (\<lambda>x. c = k x) ys) \<le> 1"
proof (induction ys)
  case Nil
  show ?case by simp
next
  case (Cons y ys)
  show ?case
  proof (cases "c = k y")
    case True
    with Cons.prems have "filter (\<lambda>x. c = k x) ys = []"
      by (auto simp: filter_empty_conv)
    with True show ?thesis by simp
  next
    case False
    with Cons show ?thesis by simp
  qed
qed

lemma rev_short: "length xs \<le> 1 \<Longrightarrow> rev xs = xs"
  by (cases xs) auto

lemma sort_key_strictly_descending:
  fixes k :: "'a \<Rightarrow> int"
  assumes "sorted_wrt (\<lambda>a b. k b < k a) ys"
  shows "sort_key k ys = rev ys"
proof (rule properties_for_sort_key)
  show "mset (rev ys) = mset ys" by simp
  have "sorted_wrt (\<lambda>a b. k b \<le> k a) ys"
    by (rule sorted_wrt_mono_rel [OF _ assms]) simp
  then show "sorted (map k (rev ys))"
    by (simp add: sorted_map sorted_wrt_rev)
  fix j
  have "filter (\<lambda>x. k j = k x) (rev ys) = rev (filter (\<lambda>x. k j = k x) ys)"
    by (simp add: rev_filter)
  also have "\<dots> = filter (\<lambda>x. k j = k x) ys"
    by (rule rev_short) (rule strictly_descending_filter [OF assms])
  finally show "filter (\<lambda>x. k j = k x) (rev ys) = filter (\<lambda>x. k j = k x) ys" .
qed

lemma countAndMakeRun_sort_key:
  fixes k :: "'a \<Rightarrow> int"
  assumes "consistentOn cmp k (set xs)" "2 \<le> length xs"
  shows "fst (countAndMakeRun cmp xs) \<le> length xs
    \<and> take (fst (countAndMakeRun cmp xs)) (snd (countAndMakeRun cmp xs))
        = sort_key k (take (fst (countAndMakeRun cmp xs)) xs)
    \<and> drop (fst (countAndMakeRun cmp xs)) (snd (countAndMakeRun cmp xs))
        = drop (fst (countAndMakeRun cmp xs)) xs"
proof -
  from assms(2) obtain x0 x1 rest where xs: "xs = x0 # x1 # rest"
    by (cases xs; cases "tl xs") auto
  have less: "(cmp x1 x0 < 0) = (k x1 < k x0)"
    by (rule consistentOn_less [OF assms(1)]) (auto simp: xs)
  have tail: "consistentOn cmp k (insert x1 (set rest))"
    by (rule consistentOn_subset [OF assms(1)]) (auto simp: xs)
  show ?thesis
  proof (cases "cmp x1 x0 < 0")
    case True
    let ?r = "runTail cmp True x1 rest"
    from runTail_descending [OF tail] have r: "?r \<le> length rest"
      and d: "sorted_wrt (\<lambda>a b. k b < k a) (x1 # take ?r rest)" by auto
    from True less d have "sorted_wrt (\<lambda>a b. k b < k a) (x0 # x1 # take ?r rest)"
      by auto
    then have "sort_key k (x0 # x1 # take ?r rest) = rev (x0 # x1 # take ?r rest)"
      by (rule sort_key_strictly_descending)
    with True r show ?thesis
      by (simp add: countAndMakeRun_def xs Let_def)
  next
    case False
    let ?r = "runTail cmp False x1 rest"
    from runTail_ascending [OF tail] have r: "?r \<le> length rest"
      and d: "sorted (map k (x1 # take ?r rest))" by auto
    from False less d have "sorted (map k (x0 # x1 # take ?r rest))"
      by auto
    then have "sort_key k (x0 # x1 # take ?r rest) = x0 # x1 # take ?r rest"
      by (rule sort_key_id_if_sorted)
    with False r show ?thesis
      by (simp add: countAndMakeRun_def xs Let_def)
  qed
qed

lemma arrayTimSort_sort_key:
  fixes k :: "'a \<Rightarrow> int"
  assumes "consistentOn cmp k (set xs)"
  shows "arrayTimSort cmp xs = sort_key k xs"
proof (cases "length xs < 2")
  case True
  then have "xs = [] \<or> (\<exists>x. xs = [x])"
    by (cases xs; cases "tl xs") auto
  then show ?thesis by (auto simp: arrayTimSort_def)
next
  case False
  let ?n = "fst (countAndMakeRun cmp xs)"
  let ?w = "snd (countAndMakeRun cmp xs)"
  from False countAndMakeRun_sort_key [OF assms] have n: "?n \<le> length xs"
    and t: "take ?n ?w = sort_key k (take ?n xs)" and d: "drop ?n ?w = drop ?n xs"
    by auto
  have c: "consistentOn cmp k (set (take ?n xs) \<union> set (drop ?n xs))"
    by (rule consistentOn_subset [OF assms]) (auto dest: in_set_takeD in_set_dropD)
  have "foldl (binaryInsert cmp) (take ?n ?w) (drop ?n ?w) = sort_key k (take ?n xs @ drop ?n xs)"
    unfolding t d by (rule binaryInsertionSort_sort_key [OF c])
  then have ins: "binaryInsertionSort cmp ?w ?n = sort_key k xs"
    by (simp add: binaryInsertionSort_def)
  have "?w = take ?n ?w @ drop ?n ?w" by simp
  then have "?n = length xs \<Longrightarrow> ?w = sort_key k xs"
    unfolding t d by simp
  with n ins False show ?thesis
    by (auto simp: arrayTimSort_def Let_def)
qed

lemma arrayTimSort_contract: "obeysSortContract arrayTimSort"
  unfolding obeysSortContract_def by (intro allI impI) (rule arrayTimSort_sort_key)

lemma sortCompare_valid:
  "validDate pf a \<Longrightarrow> validDate pf b \<Longrightarrow>
     sortCompare pf a b = publishedTime pf b - publishedTime pf a"
  by (auto simp: validDate_def sortCompare_def publishedTime_def)

lemma sortCompare_consistent:
  "list_all (validDate pf) xs \<Longrightarrow>
     consistentOn (sortCompare pf) (\<lambda>y. - publishedTime pf y) (set xs)"
  by (simp add: consistentOn_def list_all_iff sortCompare_valid)

lemma sortItems_sort_key:
  "obeysSortContract srt \<Longrightarrow> list_all (validDate pf) xs \<Longrightarrow>
     sortItems srt pf xs = sort_key (\<lambda>y. - publishedTime pf y) xs"
  by (simp add: obeysSortContract_def sortItems_def sortCompare_consistent)

text \<open>
  C2, as amended. For every input list whose \<open>published_at\<close> values all parse as valid
  timestamps, the sort stage orders the records by \<open>published_at\<close> descending with a
  stable sort, giving deterministic output: the output is a permutation of the input,
  its time values descend, records with the same time value keep their input order,
  and every engine whose \<open>Array.prototype.sort\<close> obeys the contract of ECMAScript gives
  the same output.
\<close>

theorem sortItems_valid_dates:
  assumes "obeysSortContract srt" and "list_all (validDate pf) xs"
  shows "mset (sortItems srt pf xs) = mset xs
    \<and> sorted_wrt (\<lambda>a b. publishedTime pf b \<le> publishedTime pf a) (sortItems srt pf xs)
    \<and> filter (\<lambda>x. publishedTime pf x = t) (sortItems srt pf xs)
         = filter (\<lambda>x. publishedTime pf x = t) xs
    \<and> (\<forall>srt'. obeysSortContract srt' \<longrightarrow> sortItems srt' pf xs = sortItems srt pf xs)"
proof -
  have eq: "sortItems srt pf xs = sort_key (\<lambda>y. - publishedTime pf y) xs"
    using assms by (rule sortItems_sort_key)
  have "sorted (map (\<lambda>y. - publishedTime pf y) (sortItems srt pf xs))"
    unfolding eq by (rule sorted_sort_key)
  then have desc: "sorted_wrt (\<lambda>a b. publishedTime pf b \<le> publishedTime pf a) (sortItems srt pf xs)"
    by (simp add: sorted_map)
  have "filter (\<lambda>x. - publishedTime pf x = - t) (sortItems srt pf xs)
      = filter (\<lambda>x. - publishedTime pf x = - t) xs"
    unfolding eq by (rule sort_key_stable)
  then have stable: "filter (\<lambda>x. publishedTime pf x = t) (sortItems srt pf xs)
      = filter (\<lambda>x. publishedTime pf x = t) xs"
    by simp
  have same: "\<forall>srt'. obeysSortContract srt' \<longrightarrow> sortItems srt' pf xs = sortItems srt pf xs"
    using assms(2) by (simp add: eq sortItems_sort_key)
  have perm: "mset (sortItems srt pf xs) = mset xs"
    by (simp add: eq)
  from perm desc stable same show ?thesis
    by (intro conjI)
qed

lemma iso_days:
  "isoParse ''2024-01-01'' = Some 1704067200000"
  "isoParse ''2024-01-02'' = Some 1704153600000"
  "isoParse ''2024-01-03'' = Some 1704240000000"
  by (simp_all add: iso_defs char_defs)

lemma iso_not_a_date: "isoParse ''not a date'' = None"
  by (simp add: iso_defs char_defs)

lemmas sort_defs =
  sortItems_def arrayTimSort_def countAndMakeRun_def binaryInsertionSort_def binaryInsert_def
  binarySearch.simps sortCompare_def sampleItem_def isoEngine_def iso_days iso_not_a_date
  Let_def

theorem sortItems_valid_dates_witness:
  "sortItems arrayTimSort isoEngine
     [sampleItem ''a'' ''A'' ''2024-01-03'', sampleItem ''b'' ''B'' ''2024-01-01'',
      sampleItem ''c'' ''C'' ''2024-01-02'']
   = [sampleItem ''a'' ''A'' ''2024-01-03'', sampleItem ''c'' ''C'' ''2024-01-02'',
      sampleItem ''b'' ''B'' ''2024-01-01'']
   \<and> mset (sortItems arrayTimSort isoEngine
     [sampleItem ''a'' ''A'' ''2024-01-03'', sampleItem ''b'' ''B'' ''2024-01-01'',
      sampleItem ''c'' ''C'' ''2024-01-02''])
   = mset [sampleItem ''a'' ''A'' ''2024-01-03'', sampleItem ''b'' ''B'' ''2024-01-01'',
      sampleItem ''c'' ''C'' ''2024-01-02'']"
proof -
  have valid: "list_all (validDate isoEngine)
     [sampleItem ''a'' ''A'' ''2024-01-03'', sampleItem ''b'' ''B'' ''2024-01-01'',
      sampleItem ''c'' ''C'' ''2024-01-02'']"
    by (simp add: validDate_def sampleItem_def isoEngine_def iso_days)
  have order: "sortItems arrayTimSort isoEngine
     [sampleItem ''a'' ''A'' ''2024-01-03'', sampleItem ''b'' ''B'' ''2024-01-01'',
      sampleItem ''c'' ''C'' ''2024-01-02'']
   = [sampleItem ''a'' ''A'' ''2024-01-03'', sampleItem ''c'' ''C'' ''2024-01-02'',
      sampleItem ''b'' ''B'' ''2024-01-01'']"
    by (simp add: sort_defs)
  from sortItems_valid_dates [OF arrayTimSort_contract valid, of 0] order show ?thesis
    by (elim conjE) (simp only: simp_thms)
qed

text \<open>
  The claim as it was stated treats a record with an unparsable date as the oldest and
  puts it behind every record with a valid date. The comparator is \<open>NaN\<close> on such a
  record, which \<open>sort\<close> reads as "equal". Of two records the first stays first, also when
  it is the one with the unparsable date; and between two records with valid dates such
  a record keeps the run of the engine's sort going, so that the older record stays
  before the newer one.
\<close>

theorem sortItems_unparsable_first:
  "sortItems arrayTimSort isoEngine
     [sampleItem ''a'' ''A'' ''not a date'', sampleItem ''b'' ''B'' ''2024-01-01'']
   = [sampleItem ''a'' ''A'' ''not a date'', sampleItem ''b'' ''B'' ''2024-01-01'']
   \<and> sortItems arrayTimSort isoEngine
     [sampleItem ''a'' ''A'' ''2024-01-01'', sampleItem ''b'' ''B'' ''not a date'',
      sampleItem ''c'' ''C'' ''2024-01-02'']
   = [sampleItem ''a'' ''A'' ''2024-01-01'', sampleItem ''b'' ''B'' ''not a date'',
      sampleItem ''c'' ''C'' ''2024-01-02'']
   \<and> dateParse isoEngine ''not a date'' = None
   \<and> dateParse isoEngine ''2024-01-01'' = Some 1704067200000
   \<and> dateParse isoEngine ''2024-01-02'' = Some 1704153600000"
  by (simp add: sort_defs)

text \<open>
  The first of these two orders is not the sample engine's choice: the comparator is
  "equal" on every pair of a list of two records of which one has an unparsable date,
  which is consistent, and every engine that obeys the contract leaves the list as it is.
\<close>

lemma sortItems_pair_with_unparsable:
  assumes "obeysSortContract srt" and "\<not> validDate pf a \<or> \<not> validDate pf b"
  shows "sortItems srt pf [a, b] = [a, b]"
proof -
  have "sortCompare pf x y = 0" if "x \<in> {a, b}" "y \<in> {a, b}" for x y
    using that assms(2) by (auto simp: sortCompare_def validDate_def split: option.splits)
  then have "consistentOn (sortCompare pf) (\<lambda>x. 0) (set [a, b])"
    by (simp add: consistentOn_def)
  with assms(1) have "srt (sortCompare pf) [a, b] = sort_key (\<lambda>x. 0 :: int) [a, b]"
    unfolding obeysSortContract_def by blast
  then show ?thesis
    by (simp add: sortItems_def)
qed

text \<open>
  With more records the order is the engine's. On the sample engine a record with an
  unparsable date can also end behind the others: here the first two records are a
  descending run, which is reversed, the third record is inserted after them, and the
  fourth before them.
\<close>

lemma sortItems_engine_order:
  "sortItems arrayTimSort isoEngine
     [sampleItem ''a'' ''A'' ''2024-01-01'', sampleItem ''b'' ''B'' ''2024-01-02'',
      sampleItem ''c'' ''C'' ''not a date'', sampleItem ''d'' ''D'' ''2024-01-03'']
   = [sampleItem ''d'' ''D'' ''2024-01-03'', sampleItem ''b'' ''B'' ''2024-01-02'',
      sampleItem ''a'' ''A'' ''2024-01-01'', sampleItem ''c'' ''C'' ''not a date'']"
  by (simp add: sort_defs)

section \<open>Dates\<close>

lemma tryFormats_returns: "\<exists>stamp. tryFormats pf now s fs = Inr stamp"
proof (induction fs)
  case Nil
  show ?case by simp
next
  case (Cons f fs)
  then obtain stamp where rest: "tryFormats pf now s fs = Inr stamp" by blast
  show ?case
  proof (cases "isMatch (fst f) s")
    case False
    with rest show ?thesis by simp
  next
    case True
    show ?thesis
    proof (cases "if Suc (snd f) = 7 then dateToISOString (dateParse pf (gdeltToIso s))
                  else dateToISOString (dateParse pf s)")
      case (Inl e)
      with True rest show ?thesis by simp
    next
      case (Inr v)
      with True show ?thesis by simp
    qed
  qed
qed

lemma tryFormats_no_match:
  "list_all (\<lambda>f. \<not> isMatch (fst f) s) fs \<Longrightarrow> tryFormats pf now s fs = Inr (toISOString now)"
  by (induction fs) auto

lemma gdelt_example_matches:
  "\<not> isMatch reRfc2822 ''20240115T120000Z''"
  "\<not> isMatch reIsoPrefix ''20240115T120000Z''"
  "isMatch reGdeltDate ''20240115T120000Z''"
  by (simp_all add: isMatch_def reRfc2822_def reIsoPrefix_def reGdeltDate_def skip_def char_defs)

lemma gdelt_example_iso: "gdeltToIso ''20240115T120000Z'' = ''2024-01-15T12:00:00Z''"
  by (simp add: gdeltToIso_def)

lemma noon_iso_string: "toISOString 1705320000000 = ''2024-01-15T12:00:00.000Z''"
  by code_simp

text \<open>
  C5. \<open>parseDate\<close> returns a timestamp for every input and never throws. It tries the
  native parse, then the RFC-2822-like, the ISO-like and the compact pattern; for a
  string that the native parse rejects and none of the patterns matches it returns the
  current time. On an engine whose native parse rejects the compact form and reads
  \<open>2024-01-15T12:00:00Z\<close> as ECMAScript prescribes, \<open>parseDate("20240115T120000Z")\<close> is
  \<open>2024-01-15T12:00:00.000Z\<close>.
\<close>

theorem parseDate_never_fails:
  "(\<exists>stamp. parseDate pf now dateStr = Inr stamp)
   \<and> (dateParse pf s = Some t \<and> s \<noteq> [] \<longrightarrow> parseDate pf now (Some s) = Inr (toISOString t))
   \<and> (dateParse pf s = None \<and> \<not> isMatch reRfc2822 s \<and> \<not> isMatch reIsoPrefix s
        \<and> \<not> isMatch reGdeltDate s \<longrightarrow> parseDate pf now (Some s) = Inr (toISOString now))
   \<and> (dateParse pf ''20240115T120000Z'' = None
        \<and> dateParse pf ''2024-01-15T12:00:00Z'' = Some 1705320000000
        \<longrightarrow> parseDate pf now (Some ''20240115T120000Z'') = Inr ''2024-01-15T12:00:00.000Z'')"
proof -
  have total: "\<exists>stamp. parseDate pf now dateStr = Inr stamp"
  proof (cases dateStr)
    case None
    then show ?thesis by (simp add: parseDate_def)
  next
    case (Some d)
    show ?thesis
    proof (cases "dateParse pf d")
      case None
      with Some tryFormats_returns [of pf now d formats] show ?thesis
        by (auto simp: parseDate_def)
    next
      case (Some u)
      with \<open>dateStr = Some d\<close> show ?thesis by (simp add: parseDate_def)
    qed
  qed
  have native: "parseDate pf now (Some s) = Inr (toISOString t)"
    if "dateParse pf s = Some t" "s \<noteq> []"
    using that by (simp add: parseDate_def)
  have fallback: "parseDate pf now (Some s) = Inr (toISOString now)"
    if "dateParse pf s = None" "\<not> isMatch reRfc2822 s" "\<not> isMatch reIsoPrefix s"
      "\<not> isMatch reGdeltDate s"
    using that tryFormats_no_match [of s formats pf now]
    by (simp add: parseDate_def formats_def)
  have compact: "parseDate pf now (Some ''20240115T120000Z'') = Inr ''2024-01-15T12:00:00.000Z''"
    if "dateParse pf ''20240115T120000Z'' = None"
      "dateParse pf ''2024-01-15T12:00:00Z'' = Some 1705320000000"
    using that
    by (simp add: parseDate_def formats_def gdelt_example_matches gdelt_example_iso
        dateToISOString_def noon_iso_string)
  show ?thesis
  proof (intro conjI impI)
    show "\<exists>stamp. parseDate pf now dateStr = Inr stamp"
      by (rule total)
  next
    assume "dateParse pf s = Some t \<and> s \<noteq> []"
    then show "parseDate pf now (Some s) = Inr (toISOString t)"
      using native by simp
  next
    assume "dateParse pf s = None \<and> \<not> isMatch reRfc2822 s \<and> \<not> isMatch reIsoPrefix s
        \<and> \<not> isMatch reGdeltDate s"
    then show "parseDate pf now (Some s) = Inr (toISOString now)"
      using fallback by simp
  next
    assume "dateParse pf ''20240115T120000Z'' = None
        \<and> dateParse pf ''2024-01-15T12:00:00Z'' = Some 1705320000000"
    then show "parseDate pf now (Some ''20240115T120000Z'') = Inr ''2024-01-15T12:00:00.000Z''"
      using compact by simp
  qed
qed

lemma iso_example_parses:
  "isoParse ''20240115T120000Z'' = None"
  "isoParse ''2024-01-15T12:00:00Z'' = Some 1705320000000"
  by (simp_all add: iso_defs char_defs)

lemma not_a_date_matches:
  "\<not> isMatch reRfc2822 ''not a date''"
  "\<not> isMatch reIsoPrefix ''not a date''"
  "\<not> isMatch reGdeltDate ''not a date''"
  by (simp_all add: isMatch_def reRfc2822_def reIsoPrefix_def reGdeltDate_def skip_def char_defs)

lemma clock_iso_string: "toISOString 1700000000123 = ''2023-11-14T22:13:20.123Z''"
  by code_simp

theorem parseDate_never_fails_witness:
  "parseDate isoEngine 1700000000123 (Some ''20240115T120000Z'') = Inr ''2024-01-15T12:00:00.000Z''
   \<and> parseDate isoEngine 1700000000123 (Some ''2024-01-15T12:00:00Z'')
       = Inr ''2024-01-15T12:00:00.000Z''
   \<and> parseDate isoEngine 1700000000123 (Some ''not a date'') = Inr ''2023-11-14T22:13:20.123Z''"
  using parseDate_never_fails [of isoEngine 1700000000123 None "''2024-01-15T12:00:00Z''" 1705320000000]
    parseDate_never_fails [of isoEngine 1700000000123 None "''not a date''" 0]
  by (simp add: isoEngine_def iso_example_parses iso_not_a_date not_a_date_matches
      noon_iso_string clock_iso_string)

section \<open>Summaries\<close>

lemma lastIndexFrom_absent: "c \<notin> set xs \<Longrightarrow> lastIndexFrom c xs i found = found"
  by (induction xs arbitrary: i found) auto

lemma lastIndexFrom_last:
  "j < length xs \<Longrightarrow> xs ! j = c \<Longrightarrow> c \<notin> set (drop (Suc j) xs) \<Longrightarrow>
     lastIndexFrom c xs i found = i + int j"
proof (induction xs arbitrary: i found j)
  case Nil
  then show ?case by simp
next
  case (Cons x xs)
  show ?case
  proof (cases j)
    case 0
    with Cons.prems show ?thesis by (simp add: lastIndexFrom_absent)
  next
    case (Suc k)
    with Cons.prems Cons.IH [of k "i + 1"] show ?thesis by simp
  qed
qed

lemma lastIndexOf_absent: "c \<notin> set s \<Longrightarrow> lastIndexOf s c = - 1"
  by (simp add: lastIndexOf_def lastIndexFrom_absent)

lemma lastIndexOf_last:
  "j < length s \<Longrightarrow> s ! j = c \<Longrightarrow> c \<notin> set (drop (Suc j) s) \<Longrightarrow> lastIndexOf s c = int j"
  by (simp add: lastIndexOf_def lastIndexFrom_last)

text \<open>Every string has a last occurrence of a code unit, or none.\<close>

lemma last_occurrence:
  "c \<notin> set s \<or> (\<exists>j. j < length s \<and> s ! j = c \<and> c \<notin> set (drop (Suc j) s))"
proof (induction s)
  case Nil
  show ?case by simp
next
  case (Cons x xs)
  show ?case
  proof (cases "c \<in> set xs")
    case True
    with Cons obtain j where "j < length xs" "xs ! j = c" "c \<notin> set (drop (Suc j) xs)"
      by blast
    then have "Suc j < length (x # xs) \<and> (x # xs) ! Suc j = c
        \<and> c \<notin> set (drop (Suc (Suc j)) (x # xs))"
      by simp
    then show ?thesis by blast
  next
    case False
    show ?thesis
    proof (cases "x = c")
      case True
      with False have "0 < length (x # xs) \<and> (x # xs) ! 0 = c \<and> c \<notin> set (drop (Suc 0) (x # xs))"
        by simp
      then show ?thesis by blast
    next
      case False
      with \<open>c \<notin> set xs\<close> show ?thesis by simp
    qed
  qed
qed

lemma lastIndexOf_le:
  assumes "j < length s" and "\<forall>d \<in> set (drop (Suc j) s). d \<noteq> c"
  shows "lastIndexOf s c \<le> int j"
proof -
  from last_occurrence [of c s] show ?thesis
  proof
    assume "c \<notin> set s"
    then show ?thesis by (simp add: lastIndexOf_absent)
  next
    assume "\<exists>k. k < length s \<and> s ! k = c \<and> c \<notin> set (drop (Suc k) s)"
    then obtain k where k: "k < length s" "s ! k = c" "c \<notin> set (drop (Suc k) s)"
      by blast
    have "k \<le> j"
    proof (rule ccontr)
      assume "\<not> k \<le> j"
      then have "Suc j \<le> k" by simp
      with k(1) have "drop (Suc j) s ! (k - Suc j) = s ! k"
        and "k - Suc j < length (drop (Suc j) s)"
        by simp_all
      then have "s ! k \<in> set (drop (Suc j) s)"
        by (metis nth_mem)
      with assms(2) k(2) show False by blast
    qed
    with k show ?thesis by (simp add: lastIndexOf_last)
  qed
qed

lemma boundary_last:
  assumes "lastAt isTerminator s b"
  shows "max (max (lastIndexOf s (CHR ''.'')) (lastIndexOf s (CHR ''?'')))
           (lastIndexOf s (CHR ''!'')) = int b"
proof -
  from assms have b: "b < length s" and at: "isTerminator (s ! b)"
    and after: "\<forall>d \<in> set (drop (Suc b) s). \<not> isTerminator d"
    by (simp_all add: lastAt_def list_all_iff)
  from after have none: "\<forall>d \<in> set (drop (Suc b) s). d \<noteq> c" if "isTerminator c" for c
    using that by blast
  have le: "lastIndexOf s c \<le> int b" if "isTerminator c" for c
    using lastIndexOf_le [OF b none [OF that]] .
  have eq: "lastIndexOf s (s ! b) = int b"
    using b none [OF at] by (intro lastIndexOf_last) auto
  have dot: "lastIndexOf s (CHR ''.'') \<le> int b"
    and question: "lastIndexOf s (CHR ''?'') \<le> int b"
    and exclaim: "lastIndexOf s (CHR ''!'') \<le> int b"
    by (rule le, simp add: isTerminator_def)+
  from at have "s ! b = CHR ''.'' \<or> s ! b = CHR ''?'' \<or> s ! b = CHR ''!''"
    by (simp add: isTerminator_def)
  with eq dot question exclaim show ?thesis
    by (elim disjE) simp_all
qed

lemma boundary_none:
  assumes "noneIn isTerminator s"
  shows "max (max (lastIndexOf s (CHR ''.'')) (lastIndexOf s (CHR ''?'')))
           (lastIndexOf s (CHR ''!'')) = - 1"
proof -
  from assms have "c \<notin> set s" if "isTerminator c" for c
    using that by (auto simp: noneIn_def list_all_iff)
  then have "CHR ''.'' \<notin> set s" "CHR ''?'' \<notin> set s" "CHR ''!'' \<notin> set s"
    by (simp_all add: isTerminator_def)
  then show ?thesis by (simp add: lastIndexOf_absent)
qed

lemma blank_last: "lastAt isBlank s sp \<Longrightarrow> lastIndexOf s (CHR '' '') = int sp"
  by (intro lastIndexOf_last) (auto simp: lastAt_def isBlank_def list_all_iff)

lemma blank_none: "noneIn isBlank s \<Longrightarrow> lastIndexOf s (CHR '' '') = - 1"
  by (intro lastIndexOf_absent) (auto simp: noneIn_def isBlank_def list_all_iff)

lemma not_exceeded_by_none: "\<not> exceedsHalf (- 1) n" "\<not> exceeds07 (- 1) n"
  by (simp_all add: exceedsHalf_def exceeds07_def)

lemma extractSummary_short:
  assumes "length (cleanText text) \<le> n"
  shows "extractSummary text n = cleanText text"
proof (cases "text = []")
  case True
  then show ?thesis by (simp add: extractSummary_def cleanText_def)
next
  case False
  with assms show ?thesis by (simp add: extractSummary_def Let_def)
qed

lemma extractSummary_long:
  assumes "n < length (cleanText text)"
  shows "extractSummary text n =
    (let clean = cleanText text; truncated = take n clean;
         boundary = max (max (lastIndexOf truncated (CHR ''.'')) (lastIndexOf truncated (CHR ''?'')))
                      (lastIndexOf truncated (CHR ''!''))
     in if exceedsHalf boundary n then take (nat (boundary + 1)) clean
        else if exceeds07 (lastIndexOf truncated (CHR '' '')) n
             then take (nat (lastIndexOf truncated (CHR '' ''))) clean @ ''...''
             else truncated @ ''...'')"
proof -
  from assms have "text \<noteq> []" by (auto simp: cleanText_def)
  with assms show ?thesis by (simp add: extractSummary_def Let_def)
qed

lemma extractSummary_sentence:
  assumes "n < length (cleanText text)"
    and "lastAt isTerminator (take n (cleanText text)) b" and "exceedsHalf (int b) n"
  shows "extractSummary text n = take (Suc b) (cleanText text)"
  using assms(3) boundary_last [OF assms(2)]
  by (simp add: extractSummary_long [OF assms(1)] Let_def nat_add_distrib)

lemma no_sentence_boundary:
  assumes "noneIn isTerminator s \<or> (lastAt isTerminator s b \<and> \<not> exceedsHalf (int b) n)"
  shows "\<not> exceedsHalf (max (max (lastIndexOf s (CHR ''.'')) (lastIndexOf s (CHR ''?'')))
           (lastIndexOf s (CHR ''!''))) n"
  using assms boundary_last [of s b] boundary_none [of s] not_exceeded_by_none(1) [of n]
  by auto

lemma extractSummary_word:
  assumes "n < length (cleanText text)"
    and "noneIn isTerminator (take n (cleanText text))
         \<or> (lastAt isTerminator (take n (cleanText text)) b \<and> \<not> exceedsHalf (int b) n)"
    and "lastAt isBlank (take n (cleanText text)) sp" and "exceeds07 (int sp) n"
  shows "extractSummary text n = take sp (cleanText text) @ ''...''"
  using no_sentence_boundary [OF assms(2)] assms(4) blank_last [OF assms(3)]
  by (simp add: extractSummary_long [OF assms(1)] Let_def)

lemma extractSummary_hard:
  assumes "n < length (cleanText text)"
    and "noneIn isTerminator (take n (cleanText text))
         \<or> (lastAt isTerminator (take n (cleanText text)) b \<and> \<not> exceedsHalf (int b) n)"
    and "noneIn isBlank (take n (cleanText text))
         \<or> (lastAt isBlank (take n (cleanText text)) sp \<and> \<not> exceeds07 (int sp) n)"
  shows "extractSummary text n = take n (cleanText text) @ ''...''"
proof -
  have "\<not> exceeds07 (lastIndexOf (take n (cleanText text)) (CHR '' '')) n"
    using assms(3) blank_last [of "take n (cleanText text)" sp]
      blank_none [of "take n (cleanText text)"] not_exceeded_by_none(2) [of n]
    by auto
  with no_sentence_boundary [OF assms(2)] show ?thesis
    by (simp add: extractSummary_long [OF assms(1)] Let_def)
qed

lemma summary_example_clean:
  "cleanText ''First sentence. Second sentence. Third sentence is very long...''
     = ''First sentence. Second sentence. Third sentence is very long...''"
  by code_simp

lemma summary_example_boundary:
  "lastAt isTerminator ''First sentence. Second sentence. Third sentence is'' 31"
  by code_simp

lemma summary_example:
  "extractSummary ''First sentence. Second sentence. Third sentence is very long...'' 50
     = ''First sentence. Second sentence.''"
proof -
  have "extractSummary ''First sentence. Second sentence. Third sentence is very long...'' 50
      = take (Suc 31) (cleanText ''First sentence. Second sentence. Third sentence is very long...'')"
    by (rule extractSummary_sentence)
       (simp_all add: summary_example_clean summary_example_boundary exceedsHalf_def)
  then show ?thesis by (simp add: summary_example_clean)
qed

text \<open>
  C6. If the cleaned text is no longer than \<open>maxLength\<close>, \<open>extractSummary\<close> returns it
  unchanged. Otherwise it looks at the first \<open>maxLength\<close> code units: if the last sentence
  terminator (\<open>.\<close>, \<open>?\<close>, \<open>!\<close>) among them stands at a position that exceeds
  \<open>maxLength * 0.5\<close>, it cuts behind that terminator; else, if the last space among them
  stands at a position that exceeds \<open>maxLength * 0.7\<close>, it cuts before that space and
  appends \<open>...\<close>; else it cuts at \<open>maxLength\<close> and appends \<open>...\<close>. The products are the
  products of doubles that the code computes. In particular the summary of
  "First sentence. Second sentence. Third sentence is very long..." at 50 is
  "First sentence. Second sentence.".
\<close>

theorem extractSummary_rule:
  "(length (cleanText text) \<le> n \<longrightarrow> extractSummary text n = cleanText text)
   \<and> (n < length (cleanText text)
        \<and> lastAt isTerminator (take n (cleanText text)) b \<and> exceedsHalf (int b) n
        \<longrightarrow> extractSummary text n = take (Suc b) (cleanText text))
   \<and> (n < length (cleanText text)
        \<and> (noneIn isTerminator (take n (cleanText text))
            \<or> (lastAt isTerminator (take n (cleanText text)) b \<and> \<not> exceedsHalf (int b) n))
        \<and> lastAt isBlank (take n (cleanText text)) sp \<and> exceeds07 (int sp) n
        \<longrightarrow> extractSummary text n = take sp (cleanText text) @ ''...'')
   \<and> (n < length (cleanText text)
        \<and> (noneIn isTerminator (take n (cleanText text))
            \<or> (lastAt isTerminator (take n (cleanText text)) b \<and> \<not> exceedsHalf (int b) n))
        \<and> (noneIn isBlank (take n (cleanText text))
            \<or> (lastAt isBlank (take n (cleanText text)) sp \<and> \<not> exceeds07 (int sp) n))
        \<longrightarrow> extractSummary text n = take n (cleanText text) @ ''...'')
   \<and> extractSummary ''First sentence. Second sentence. Third sentence is very long...'' 50
        = ''First sentence. Second sentence.''"
proof (intro conjI impI)
  assume "length (cleanText text) \<le> n"
  then show "extractSummary text n = cleanText text"
    by (rule extractSummary_short)
next
  assume "n < length (cleanText text)
        \<and> lastAt isTerminator (take n (cleanText text)) b \<and> exceedsHalf (int b) n"
  then show "extractSummary text n = take (Suc b) (cleanText text)"
    using extractSummary_sentence by blast
next
  assume "n < length (cleanText text)
        \<and> (noneIn isTerminator (take n (cleanText text))
            \<or> (lastAt isTerminator (take n (cleanText text)) b \<and> \<not> exceedsHalf (int b) n))
        \<and> lastAt isBlank (take n (cleanText text)) sp \<and> exceeds07 (int sp) n"
  then show "extractSummary text n = take sp (cleanText text) @ ''...''"
    using extractSummary_word [of n "text" b sp] by blast
next
  assume "n < length (cleanText text)
        \<and> (noneIn isTerminator (take n (cleanText text))
            \<or> (lastAt isTerminator (take n (cleanText text)) b \<and> \<not> exceedsHalf (int b) n))
        \<and> (noneIn isBlank (take n (cleanText text))
            \<or> (lastAt isBlank (take n (cleanText text)) sp \<and> \<not> exceeds07 (int sp) n))"
  then show "extractSummary text n = take n (cleanText text) @ ''...''"
    using extractSummary_hard [of n "text" b sp] by blast
next
  show "extractSummary ''First sentence. Second sentence. Third sentence is very long...'' 50
        = ''First sentence. Second sentence.''"
    by (rule summary_example)
qed

lemma short_example_clean: "cleanText ''This is a short text.'' = ''This is a short text.''"
  by code_simp

lemma word_example_clean:
  "cleanText ''This is a sentence without any periods for truncation testing purposes here''
     = ''This is a sentence without any periods for truncation testing purposes here''"
  by code_simp

lemma word_example_positions:
  "noneIn isTerminator ''This is a sentence without any periods f''"
  "lastAt isBlank ''This is a sentence without any periods f'' 38"
  by code_simp+

lemma exceeds07_example: "exceeds07 38 40"
  by (simp add: exceeds07_def times07_def roundTo53_def bitLength.simps Let_def)

text \<open>
  The double product differs from the rational one: at \<open>maxLength = 90\<close> the product
  \<open>maxLength * 0.7\<close> is the double just below 63, so the position 63 exceeds it.
\<close>

lemma exceeds07_rounding: "exceeds07 63 90" "\<not> 7 * (90::int) < 10 * 63"
  by (simp_all add: exceeds07_def times07_def roundTo53_def bitLength.simps Let_def)

theorem extractSummary_rule_witness:
  "extractSummary ''This is a short text.'' 100 = ''This is a short text.''
   \<and> extractSummary ''First sentence. Second sentence. Third sentence is very long...'' 50
       = ''First sentence. Second sentence.''
   \<and> extractSummary
        ''This is a sentence without any periods for truncation testing purposes here'' 40
       = ''This is a sentence without any periods...''"
proof -
  have "extractSummary ''This is a short text.'' 100 = ''This is a short text.''"
    using extractSummary_rule [of "''This is a short text.''" 100 0 0]
    by (simp add: short_example_clean)
  moreover have
    "extractSummary ''First sentence. Second sentence. Third sentence is very long...'' 50
       = ''First sentence. Second sentence.''"
    using extractSummary_rule
      [of "''First sentence. Second sentence. Third sentence is very long...''" 50 31 0]
    by (simp add: summary_example_clean summary_example_boundary exceedsHalf_def)
  moreover have "extractSummary
        ''This is a sentence without any periods for truncation testing purposes here'' 40
       = ''This is a sentence without any periods...''"
    using extractSummary_rule
      [of "''This is a sentence without any periods for truncation testing purposes here''"
          40 0 38]
    by (simp add: word_example_clean word_example_positions exceeds07_example)
  ultimately show ?thesis by simp
qed

section \<open>Tickers\<close>

text \<open>
  C7. The pattern for bare tokens carries the flag \<open>i\<close>, so it also matches a token that is
  in lower case in the input: from "buy apple stock" it takes the ticker APPLE.
\<close>

theorem extractTickers_lowercase_token:
  "extractTickers ''buy apple stock'' = Some [''APPLE'']"
  by code_simp

section \<open>Normalization\<close>

lemma normalizeItem_result:
  "\<exists>r. normalizeItem pf now item = Some r
    \<and> topics r = nonEmptyOr (p_topics item) (detectTopics (itemFullText item))
    \<and> (\<forall>tk. p_tickers item = Some tk \<and> tk \<noteq> [] \<longrightarrow> tickers r = tk)
    \<and> (\<forall>rg. metaRegion (p_metadata item) = Some rg \<and> rg \<noteq> [] \<longrightarrow> region (metadata r) = Some rg)
    \<and> (\<forall>flag. metaAlert (p_metadata item) = Some flag \<longrightarrow>
          is_alert (metadata r) = Some flag
          \<and> alert_keyword (metadata r) = metaAlertKeyword (p_metadata item))"
proof -
  let ?ticks = "case p_tickers item of
                  None \<Rightarrow> extractTickers (itemFullText item)
                | Some l \<Rightarrow> if l = [] then extractTickers (itemFullText item) else Some l"
  obtain found where found: "extractTickers (itemFullText item) = Some found"
    using extractTickers_returns by blast
  then have "\<exists>tks. ?ticks = Some tks"
    by (cases "p_tickers item") auto
  then obtain tks where tks: "?ticks = Some tks" ..
  have kept: "tks = tk" if "p_tickers item = Some tk" "tk \<noteq> []" for tk
    using that tks by simp
  show ?thesis
    using tks kept
    by (auto simp: normalizeItem_def Let_def split: option.splits)
qed


text \<open>
  C8. \<open>normalizeItem\<close> does not derive again what a connector has populated: for a record
  whose topics list is non-empty the normalized topics are the input topics, and the same
  holds for a non-empty tickers list, for a \<open>metadata.region\<close> that is set (to a non-empty
  string) and for a \<open>metadata.is_alert\<close> that is set.
\<close>

theorem normalizeItem_keeps_populated:
  "\<exists>r. normalizeItem pf now item = Some r
    \<and> (p_topics item = Some ts \<and> ts \<noteq> [] \<longrightarrow> topics r = ts)
    \<and> (p_tickers item = Some tk \<and> tk \<noteq> [] \<longrightarrow> tickers r = tk)
    \<and> (p_metadata item = Some md \<and> region md = Some rg \<and> rg \<noteq> []
         \<longrightarrow> region (metadata r) = Some rg)
    \<and> (p_metadata item = Some md \<and> is_alert md = Some flag
         \<longrightarrow> is_alert (metadata r) = Some flag)"
proof -
  from normalizeItem_result [of pf now item] obtain r where
    r: "normalizeItem pf now item = Some r"
    and tops: "topics r = nonEmptyOr (p_topics item) (detectTopics (itemFullText item))"
    and ticks: "\<And>tk. p_tickers item = Some tk \<and> tk \<noteq> [] \<Longrightarrow> tickers r = tk"
    and reg: "\<And>rg. metaRegion (p_metadata item) = Some rg \<and> rg \<noteq> []
                \<Longrightarrow> region (metadata r) = Some rg"
    and flagged: "\<And>flag. metaAlert (p_metadata item) = Some flag
                \<Longrightarrow> is_alert (metadata r) = Some flag"
    by blast
  have "p_topics item = Some ts \<and> ts \<noteq> [] \<longrightarrow> topics r = ts"
    using tops by (simp add: nonEmptyOr_def)
  moreover have "p_tickers item = Some tk \<and> tk \<noteq> [] \<longrightarrow> tickers r = tk"
    using ticks by blast
  moreover have "p_metadata item = Some md \<and> region md = Some rg \<and> rg \<noteq> []
         \<longrightarrow> region (metadata r) = Some rg"
    using reg [of rg] by (simp add: metaRegion_def)
  moreover have "p_metadata item = Some md \<and> is_alert md = Some flag
         \<longrightarrow> is_alert (metadata r) = Some flag"
    using flagged [of flag] by (simp add: metaAlert_def)
  ultimately show ?thesis using r by blast
qed

text \<open>A record whose text would give other values if they were derived again.\<close>

theorem normalizeItem_keeps_populated_witness:
  "\<exists>r. normalizeItem isoEngine 0
       \<lparr>p_id = Some ''x1'', p_source = Some ''feed'', p_url = Some ''https://example.com/x1'',
        p_title = Some ''Nuclear talks: $AAPL falls as NATO meets in Ukraine'',
        p_published_at = Some ''2024-01-15T12:00:00Z'', p_fetched_at = Some ''2024-01-15T12:00:00Z'',
        p_authors = None, p_summary = None, p_content_text = None,
        p_tickers = Some [''XYZ''], p_topics = Some [''CUSTOM''], p_language = None,
        p_metadata = Some (emptyMetadata\<lparr>region := Some ''MARS'', is_alert := Some False\<rparr>)\<rparr>
       = Some r
    \<and> topics r = [''CUSTOM''] \<and> tickers r = [''XYZ'']
    \<and> region (metadata r) = Some ''MARS'' \<and> is_alert (metadata r) = Some False"
  using normalizeItem_keeps_populated
    [of isoEngine 0
       "\<lparr>p_id = Some ''x1'', p_source = Some ''feed'', p_url = Some ''https://example.com/x1'',
        p_title = Some ''Nuclear talks: $AAPL falls as NATO meets in Ukraine'',
        p_published_at = Some ''2024-01-15T12:00:00Z'', p_fetched_at = Some ''2024-01-15T12:00:00Z'',
        p_authors = None, p_summary = None, p_content_text = None,
        p_tickers = Some [''XYZ''], p_topics = Some [''CUSTOM''], p_language = None,
        p_metadata = Some (emptyMetadata\<lparr>region := Some ''MARS'', is_alert := Some False\<rparr>)\<rparr>"
       "[''CUSTOM'']" "[''XYZ'']"
       "emptyMetadata\<lparr>region := Some ''MARS'', is_alert := Some False\<rparr>" "''MARS''" False]
  by (simp add: emptyMetadata_def)

section \<open>The run\<close>







text \<open>
  A fetch or a \<open>save\<close> that throws \<open>null\<close> or \<open>undefined\<close> ends the run: the promise that
  \<open>runPipeline\<close> returns is rejected with the \<open>TypeError\<close> of the \<open>catch\<close> block.
\<close>

lemma runPipeline_rejects_fetch:
  assumes "useGdelt opts" and "gdeltFetchAll env (opt_categories opts) = Inl Nullish"
  shows "runPipeline env opts = Some (Inl TypeError)"
  using assms
  by (simp add: runPipeline_def fetchStage_def fetchFamily_def catchError_def)






section \<open>Filtering\<close>

lemma keepItem_without_categories:
  assumes "\<not> categoryRejects config item"
  shows "keepItem pf now config item = keepItem pf now (config\<lparr>categories := None\<rparr>) item"
proof -
  have "\<not> categoryRejects (config\<lparr>categories := None\<rparr>) item"
    by (simp add: categoryRejects_def hasLength_def)
  with assms show ?thesis
    by (simp add: keepItem_def regionRejects_def cong: option.case_cong)
qed

lemma keepItem_without_regions:
  assumes "\<not> regionRejects config item"
  shows "keepItem pf now config item = keepItem pf now (config\<lparr>regions := None\<rparr>) item"
proof -
  have "\<not> regionRejects (config\<lparr>regions := None\<rparr>) item"
    by (simp add: regionRejects_def hasLength_def)
  with assms show ?thesis
    by (simp add: keepItem_def categoryRejects_def cong: option.case_cong)
qed

text \<open>
  C10. With a non-empty list of allowed categories (or regions), a record whose
  \<open>metadata.category\<close> (or \<open>metadata.region\<close>) is absent passes the category (region)
  predicate: the list has no effect on whether the record is kept. The predicate rejects
  a record only when the field is present and not in the allowed list.
\<close>

theorem filterItems_absent_field_passes:
  "(category (metadata item) = None
      \<longrightarrow> keepItem pf now config item = keepItem pf now (config\<lparr>categories := None\<rparr>) item)
   \<and> (region (metadata item) = None
      \<longrightarrow> keepItem pf now config item = keepItem pf now (config\<lparr>regions := None\<rparr>) item)
   \<and> (\<not> keepItem pf now config item \<and> keepItem pf now (config\<lparr>categories := None\<rparr>) item
      \<longrightarrow> (\<exists>c. category (metadata item) = Some c \<and> c \<notin> set (listOf (categories config))))
   \<and> (\<not> keepItem pf now config item \<and> keepItem pf now (config\<lparr>regions := None\<rparr>) item
      \<longrightarrow> (\<exists>r. region (metadata item) = Some r \<and> r \<notin> set (listOf (regions config))))
   \<and> (category (metadata item) = None \<and> region (metadata item) = None
       \<and> filter_topics config = None \<and> include_keywords config = None
       \<and> exclude_keywords config = None \<and> max_age_ms config = None
      \<longrightarrow> filterItems pf now [item] config = [item])"
proof (intro conjI impI)
  assume "category (metadata item) = None"
  then have "\<not> categoryRejects config item" by (simp add: categoryRejects_def)
  then show "keepItem pf now config item = keepItem pf now (config\<lparr>categories := None\<rparr>) item"
    by (rule keepItem_without_categories)
next
  assume "region (metadata item) = None"
  then have "\<not> regionRejects config item" by (simp add: regionRejects_def)
  then show "keepItem pf now config item = keepItem pf now (config\<lparr>regions := None\<rparr>) item"
    by (rule keepItem_without_regions)
next
  assume a: "\<not> keepItem pf now config item \<and> keepItem pf now (config\<lparr>categories := None\<rparr>) item"
  then have "categoryRejects config item"
    using keepItem_without_categories [of config item pf now] by blast
  then show "\<exists>c. category (metadata item) = Some c \<and> c \<notin> set (listOf (categories config))"
    by (cases "category (metadata item)") (simp_all add: categoryRejects_def)
next
  assume a: "\<not> keepItem pf now config item \<and> keepItem pf now (config\<lparr>regions := None\<rparr>) item"
  then have "regionRejects config item"
    using keepItem_without_regions [of config item pf now] by blast
  then show "\<exists>r. region (metadata item) = Some r \<and> r \<notin> set (listOf (regions config))"
    by (cases "region (metadata item)") (simp_all add: regionRejects_def)
next
  assume "category (metadata item) = None \<and> region (metadata item) = None
       \<and> filter_topics config = None \<and> include_keywords config = None
       \<and> exclude_keywords config = None \<and> max_age_ms config = None"
  then show "filterItems pf now [item] config = [item]"
    by (simp add: filterItems_def keepItem_def categoryRejects_def regionRejects_def hasLength_def)
qed

theorem filterItems_absent_field_passes_witness:
  "filterItems isoEngine 0 [sampleItem ''a'' ''Markets rally'' ''2024-01-01'']
     \<lparr>include_keywords = None, exclude_keywords = None, categories = Some [finance],
      regions = Some [''EUROPE''], filter_topics = None, max_age_ms = None\<rparr>
   = [sampleItem ''a'' ''Markets rally'' ''2024-01-01'']"
  using filterItems_absent_field_passes
    [of "sampleItem ''a'' ''Markets rally'' ''2024-01-01''" isoEngine 0
        "\<lparr>include_keywords = None, exclude_keywords = None, categories = Some [finance],
          regions = Some [''EUROPE''], filter_topics = None, max_age_ms = None\<rparr>"]
  by (simp add: sampleItem_def emptyMetadata_def)

section \<open>The model on the repository's tests\<close>

text \<open>
  The expectations of \<open>tests/parsers.test.ts\<close> and \<open>tests/connectors.test.ts\<close> that fall
  inside the model, evaluated on it.
\<close>

lemma test_cleanText:
  "cleanText ''<p>Hello <b>World</b></p>'' = ''Hello World''"
  "cleanText ''Hello &amp; World'' = ''Hello & World''"
  "cleanText ''&lt;script&gt;'' = ''<script>''"
  "cleanText ''Preview text Continue reading...'' = ''Preview text''"
  "cleanText [] = []"
  by code_simp+

lemma test_alert_keyword:
  "containsAlertKeyword ''Nuclear weapons treaty signed''
     = \<lparr>alert = True, keyword = Some ''nuclear''\<rparr>"
  by code_simp

lemma test_tickers:
  "extractTickers ''$AAPL and $GOOGL: Apple Inc (AAPL stock), Bitcoin BTC up.''
     = Some [''AAPL'', ''GOOGL'', ''APPLE'', ''BTC'']"
  by code_simp

lemma test_gdelt_date: "parseGdeltDate pf now ''20240115T120000Z'' = ''2024-01-15T12:00:00Z''"
  by (simp add: parseGdeltDate_def gdelt_example_matches gdelt_example_iso)

end
